theory Spec2Isabelle
  imports Main "HOL-Library.Word" "HOL-Library.Signed_Division"
begin

unbundle bit_operations_syntax

section \<open>Single-precision floats\<close>

text \<open>
  The C++ type \<open>float\<close> of the source is IEEE 754 binary32, and the WebAssembly target
  evaluates every \<open>f32\<close> and \<open>f32x4\<close> operation in that format with round to nearest,
  ties to even, and without fused multiply-add.  A float is modelled by its 32 bits.
  \<open>std::numeric_limits<float>::quiet_NaN()\<close> is the pattern \<open>0x7FC00000\<close>.

  The low 31 bits of a float (its magnitude pattern) order the non-negative floats as
  their values do.  Every finite magnitude is an integer multiple of \<open>2^-149\<close>, the
  smallest subnormal; \<open>mag_units\<close> gives that multiple.  The pattern of infinity,
  \<open>0x7F800000\<close>, gets the multiple of \<open>2^128\<close>, the first value beyond the format.
\<close>

type_synonym f32 = "32 word"

definition f32_sign :: "f32 \<Rightarrow> bool" where
  "f32_sign x = bit x 31"

definition f32_mag :: "f32 \<Rightarrow> int" where
  "f32_mag x = uint (x AND 0x7FFFFFFF)"

definition f32_make :: "bool \<Rightarrow> int \<Rightarrow> f32" where
  "f32_make s n = (if s then 0x80000000 else 0) OR word_of_int n"

definition INF_MAG :: int where
  "INF_MAG = 0x7F800000"

definition f32_is_nan :: "f32 \<Rightarrow> bool" where
  "f32_is_nan x = (INF_MAG < f32_mag x)"

definition f32_is_inf :: "f32 \<Rightarrow> bool" where
  "f32_is_inf x = (f32_mag x = INF_MAG)"

definition f32_is_zero :: "f32 \<Rightarrow> bool" where
  "f32_is_zero x = (f32_mag x = 0)"

definition f32_is_finite :: "f32 \<Rightarrow> bool" where
  "f32_is_finite x = (f32_mag x < INF_MAG)"

definition quiet_NaN :: f32 where
  "quiet_NaN = 0x7FC00000"

definition mag_units :: "int \<Rightarrow> int" where
  "mag_units n = (if n < 2 ^ 23 then n
                  else (2 ^ 23 + n mod 2 ^ 23) * 2 ^ nat (n div 2 ^ 23 - 1))"

definition f32_units :: "f32 \<Rightarrow> int" where
  "f32_units x = (if f32_sign x then - mag_units (f32_mag x) else mag_units (f32_mag x))"

text \<open>
  Rounding of the exact non-negative quotient \<open>p / q\<close> (in units of \<open>2^-149\<close>, with
  \<open>0 < q\<close>) to a magnitude pattern.  \<open>floor_mag\<close> finds, bit by bit from bit 30 down,
  the largest finite pattern whose value does not exceed \<open>p / q\<close>; \<open>round_mag\<close> then
  picks this pattern or the next one, whichever is nearer, and the even one on a tie.
  The next pattern after the largest finite one is infinity.
\<close>

fun floor_mag :: "nat \<Rightarrow> int \<Rightarrow> int \<Rightarrow> int \<Rightarrow> int" where
  "floor_mag 0 acc p q = acc"
| "floor_mag (Suc k) acc p q =
     (let c = acc + 2 ^ k
      in if c < INF_MAG \<and> mag_units c * q \<le> p then floor_mag k c p q
         else floor_mag k acc p q)"

definition round_mag :: "int \<Rightarrow> int \<Rightarrow> int" where
  "round_mag p q =
     (if mag_units INF_MAG * q \<le> p then INF_MAG
      else let n = floor_mag 31 0 p q;
               lo = mag_units n * q;
               hi = mag_units (n + 1) * q
           in if 2 * p < lo + hi then n
              else if lo + hi < 2 * p then n + 1
              else if even n then n else n + 1)"

definition f32_round :: "bool \<Rightarrow> int \<Rightarrow> int \<Rightarrow> f32" where
  "f32_round s p q = f32_make s (round_mag p q)"

text \<open>A decimal literal \<open>p / q\<close> of the source, as the compiler rounds it.\<close>

definition f32_of_ratio :: "int \<Rightarrow> int \<Rightarrow> f32" where
  "f32_of_ratio p q = f32_round (p < 0) (\<bar>p\<bar> * 2 ^ 149) q"

text \<open>
  When an operation yields a NaN (an operand is a NaN, or the operation is
  \<open>Inf - Inf\<close>, \<open>0 * Inf\<close>, \<open>0 / 0\<close> or \<open>Inf / Inf\<close>), the sign and the payload of
  that NaN are the hardware's choice; WebAssembly leaves them open.  The choice is a
  parameter of every operation: a rule that gives the NaN from the operation and its
  two operands.  A rule is admissible when all it gives are NaNs.  \<open>sse_nan_rule\<close> is
  the rule of the x86 SSE instructions: the first operand that is a NaN, made quiet,
  and otherwise the negative quiet NaN \<open>0xFFC00000\<close>.
\<close>

datatype f32_op = Op_add | Op_sub | Op_mul | Op_div

type_synonym nan_rule = "f32_op \<Rightarrow> f32 \<Rightarrow> f32 \<Rightarrow> f32"


definition sse_nan_rule :: nan_rule where
  "sse_nan_rule op a b =
     (if f32_is_nan a then a OR 0x00400000
      else if f32_is_nan b then b OR 0x00400000
      else 0xFFC00000)"


definition f32_neg :: "f32 \<Rightarrow> f32" where
  "f32_neg x = x XOR 0x80000000"

definition f32_abs :: "f32 \<Rightarrow> f32" where
  "f32_abs x = x AND 0x7FFFFFFF"

definition f32_add :: "nan_rule \<Rightarrow> f32 \<Rightarrow> f32 \<Rightarrow> f32" where
  "f32_add N a b =
     (if f32_is_nan a \<or> f32_is_nan b then N Op_add a b
      else if f32_is_inf a then
        (if f32_is_inf b \<and> f32_sign a \<noteq> f32_sign b then N Op_add a b else a)
      else if f32_is_inf b then b
      else let s = f32_units a + f32_units b
           in if s = 0 then f32_make (f32_sign a \<and> f32_sign b) 0
              else f32_round (s < 0) \<bar>s\<bar> 1)"

definition f32_sub :: "nan_rule \<Rightarrow> f32 \<Rightarrow> f32 \<Rightarrow> f32" where
  "f32_sub N a b =
     (if f32_is_nan a \<or> f32_is_nan b then N Op_sub a b
      else if f32_is_inf a \<and> f32_is_inf b \<and> f32_sign a = f32_sign b then N Op_sub a b
      else f32_add N a (f32_neg b))"

definition f32_mul :: "nan_rule \<Rightarrow> f32 \<Rightarrow> f32 \<Rightarrow> f32" where
  "f32_mul N a b =
     (if f32_is_nan a \<or> f32_is_nan b then N Op_mul a b
      else if (f32_is_inf a \<and> f32_is_zero b) \<or> (f32_is_zero a \<and> f32_is_inf b)
        then N Op_mul a b
      else if f32_is_inf a \<or> f32_is_inf b
        then f32_make (f32_sign a \<noteq> f32_sign b) INF_MAG
      else f32_round (f32_sign a \<noteq> f32_sign b)
             (mag_units (f32_mag a) * mag_units (f32_mag b)) (2 ^ 149))"

definition f32_div :: "nan_rule \<Rightarrow> f32 \<Rightarrow> f32 \<Rightarrow> f32" where
  "f32_div N a b =
     (if f32_is_nan a \<or> f32_is_nan b then N Op_div a b
      else if f32_is_inf a then
        (if f32_is_inf b then N Op_div a b
         else f32_make (f32_sign a \<noteq> f32_sign b) INF_MAG)
      else if f32_is_inf b then f32_make (f32_sign a \<noteq> f32_sign b) 0
      else if f32_is_zero b then
        (if f32_is_zero a then N Op_div a b
         else f32_make (f32_sign a \<noteq> f32_sign b) INF_MAG)
      else f32_round (f32_sign a \<noteq> f32_sign b)
             (mag_units (f32_mag a) * 2 ^ 149) (mag_units (f32_mag b)))"

text \<open>The comparisons \<open><\<close>, \<open>>=\<close> and \<open>==\<close>: false as soon as an operand is a NaN.\<close>

definition f32_lt :: "f32 \<Rightarrow> f32 \<Rightarrow> bool" where
  "f32_lt a b = (\<not> f32_is_nan a \<and> \<not> f32_is_nan b \<and> f32_units a < f32_units b)"

definition f32_ge :: "f32 \<Rightarrow> f32 \<Rightarrow> bool" where
  "f32_ge a b = (\<not> f32_is_nan a \<and> \<not> f32_is_nan b \<and> f32_units b \<le> f32_units a)"

definition f32_eq :: "f32 \<Rightarrow> f32 \<Rightarrow> bool" where
  "f32_eq a b = (\<not> f32_is_nan a \<and> \<not> f32_is_nan b \<and> f32_units a = f32_units b)"

definition f32_zero :: f32 where
  "f32_zero = 0"

definition f32_one :: f32 where
  "f32_one = 0x3F800000"

definition f32_inf :: f32 where
  "f32_inf = 0x7F800000"

subsection \<open>The two thresholds of the source\<close>

definition MATRIX_INVERSE_EPSILON :: f32 where
  "MATRIX_INVERSE_EPSILON = f32_of_ratio 1 10000000"

definition MATRIX_SVD_EPSILON :: f32 where
  "MATRIX_SVD_EPSILON = f32_of_ratio 1 1000000"

section \<open>Memory and the fixed-size views\<close>

text \<open>
  Every function of the source receives addresses (\<open>uintptr_t\<close>) and works on the
  caller's memory through them.  The store maps an address to the float held there;
  addresses count 4-byte float slots, so \<open>p[k]\<close> is the slot \<open>p + k\<close>.
  An Eigen \<open>Map\<close> of a fixed-size matrix is a view of consecutive slots in column-major
  order (Eigen's default); a fixed-size matrix or vector value is given by its
  coefficients in that linear order.
\<close>

type_synonym mem = "int \<Rightarrow> f32"

type_synonym coeffs = "nat \<Rightarrow> f32"

definition Matrix3f_coeff :: "mem \<Rightarrow> int \<Rightarrow> int \<Rightarrow> int \<Rightarrow> f32" where
  "Matrix3f_coeff mem ptr r c = mem (ptr + (c * 3 + r))"

definition load_coeffs :: "mem \<Rightarrow> int \<Rightarrow> coeffs" where
  "load_coeffs mem ptr = (\<lambda>k. mem (ptr + int k))"

definition store_coeffs :: "mem \<Rightarrow> int \<Rightarrow> nat \<Rightarrow> coeffs \<Rightarrow> mem" where
  "store_coeffs mem ptr n v =
     (\<lambda>a. if ptr \<le> a \<and> a < ptr + int n then v (nat (a - ptr)) else mem a)"

definition setConstant :: "mem \<Rightarrow> int \<Rightarrow> nat \<Rightarrow> f32 \<Rightarrow> mem" where
  "setConstant mem ptr n c = store_coeffs mem ptr n (\<lambda>_. c)"

definition any_coeff :: "nat \<Rightarrow> (f32 \<Rightarrow> bool) \<Rightarrow> coeffs \<Rightarrow> bool" where
  "any_coeff n P v = list_ex (\<lambda>k. P (v k)) [0..<n]"

section \<open>determinant\<close>

text \<open>
  Modelled from the spec: the body of \<open>determinant\<close> is the single call
  \<open>m.determinant()\<close> into Eigen, which is not under the source tree.  The spec
  describes it as the closed-form 3-by-3 determinant.  It is taken here as the
  expansion along the first row, \<open>h(0,1,2) - h(1,0,2) + h(2,0,1)\<close> with
  \<open>h(a,b,c) = m(0,a) * (m(1,b) * m(2,c) - m(1,c) * m(2,b))\<close>, in float arithmetic and
  in this order of operations.
\<close>

definition bruteforce_det3_helper :: "nan_rule \<Rightarrow> mem \<Rightarrow> int \<Rightarrow> int \<Rightarrow> int \<Rightarrow> int \<Rightarrow> f32" where
  "bruteforce_det3_helper N mem ptr a b c =
     f32_mul N (Matrix3f_coeff mem ptr 0 a)
       (f32_sub N (f32_mul N (Matrix3f_coeff mem ptr 1 b) (Matrix3f_coeff mem ptr 2 c))
                (f32_mul N (Matrix3f_coeff mem ptr 1 c) (Matrix3f_coeff mem ptr 2 b)))"

definition determinant :: "nan_rule \<Rightarrow> mem \<Rightarrow> int \<Rightarrow> f32" where
  "determinant N mem m_ptr =
     f32_add N (f32_sub N (bruteforce_det3_helper N mem m_ptr 0 1 2)
                      (bruteforce_det3_helper N mem m_ptr 1 0 2))
             (bruteforce_det3_helper N mem m_ptr 2 0 1)"

text \<open>
  The values that the expansion computes on its way: the six products of two
  entries, the three differences of products, the three products with an entry of the
  first row, and the difference of the first two of these.
\<close>

definition det3_minor :: "nan_rule \<Rightarrow> mem \<Rightarrow> int \<Rightarrow> int \<Rightarrow> int \<Rightarrow> f32" where
  "det3_minor N mem ptr b c =
     f32_sub N (f32_mul N (Matrix3f_coeff mem ptr 1 b) (Matrix3f_coeff mem ptr 2 c))
             (f32_mul N (Matrix3f_coeff mem ptr 1 c) (Matrix3f_coeff mem ptr 2 b))"

definition det3_intermediates :: "nan_rule \<Rightarrow> mem \<Rightarrow> int \<Rightarrow> f32 list" where
  "det3_intermediates N mem ptr =
     [f32_mul N (Matrix3f_coeff mem ptr 1 1) (Matrix3f_coeff mem ptr 2 2),
      f32_mul N (Matrix3f_coeff mem ptr 1 2) (Matrix3f_coeff mem ptr 2 1),
      f32_mul N (Matrix3f_coeff mem ptr 1 0) (Matrix3f_coeff mem ptr 2 2),
      f32_mul N (Matrix3f_coeff mem ptr 1 2) (Matrix3f_coeff mem ptr 2 0),
      f32_mul N (Matrix3f_coeff mem ptr 1 0) (Matrix3f_coeff mem ptr 2 1),
      f32_mul N (Matrix3f_coeff mem ptr 1 1) (Matrix3f_coeff mem ptr 2 0),
      det3_minor N mem ptr 1 2, det3_minor N mem ptr 0 2, det3_minor N mem ptr 0 1,
      bruteforce_det3_helper N mem ptr 0 1 2,
      bruteforce_det3_helper N mem ptr 1 0 2,
      bruteforce_det3_helper N mem ptr 2 0 1,
      f32_sub N (bruteforce_det3_helper N mem ptr 0 1 2) (bruteforce_det3_helper N mem ptr 1 0 2)]"

section \<open>invert_matrix\<close>

text \<open>
  \<open>FullPivLU<Matrix3f>\<close> belongs to the Eigen library, which the source includes and
  which is not part of it.  The decomposition is a parameter of the model: a function
  from the nine coefficients of the input to the two results that \<open>invert_matrix\<close> asks
  of it, \<open>lu.determinant()\<close> and \<open>lu.inverse()\<close>.
\<close>

record lu_result =
  lu_determinant :: f32
  lu_inverse :: coeffs

type_synonym full_piv_lu = "coeffs \<Rightarrow> lu_result"

definition invert_matrix :: "full_piv_lu \<Rightarrow> mem \<Rightarrow> int \<Rightarrow> int \<Rightarrow> int \<times> mem" where
  "invert_matrix FullPivLU mem m_ptr out_ptr =
     (let lu = FullPivLU (load_coeffs mem m_ptr);
          det = lu_determinant lu
      in if f32_lt (f32_abs det) MATRIX_INVERSE_EPSILON
         then (0, setConstant mem out_ptr 9 quiet_NaN)
         else let mem1 = store_coeffs mem out_ptr 9 (lu_inverse lu);
                  out = load_coeffs mem1 out_ptr;
                  mem2 = (if any_coeff 9 f32_is_nan out \<or> any_coeff 9 f32_is_inf out
                          then mem1 else mem1)
              in (1, mem2))"

section \<open>solve_homography_svd\<close>

text \<open>
  \<open>JacobiSVD<Matrix8f>\<close> is Eigen's as well and is a parameter in the same way: from
  the 64 coefficients of \<open>A\<close> it gives \<open>svd.info()\<close>, the eight singular values and the
  function \<open>svd.solve\<close>.  \<open>maxCoeff\<close> is the reduction of the eight singular values
  with the maximum of two floats as C++ computes it, \<open>a < b ? b : a\<close>.
\<close>

datatype ComputationInfo = Success | NumericalIssue | NoConvergence | InvalidInput

record svd_result =
  svd_info :: ComputationInfo
  singularValues :: coeffs
  svd_solve :: "coeffs \<Rightarrow> coeffs"

type_synonym jacobi_svd = "coeffs \<Rightarrow> svd_result"

definition f32_max :: "f32 \<Rightarrow> f32 \<Rightarrow> f32" where
  "f32_max a b = (if f32_lt a b then b else a)"

definition maxCoeff :: "nat \<Rightarrow> coeffs \<Rightarrow> f32" where
  "maxCoeff n v = foldl f32_max (v 0) (map v [1..<n])"

definition solve_homography_svd ::
  "nan_rule \<Rightarrow> jacobi_svd \<Rightarrow> mem \<Rightarrow> int \<Rightarrow> int \<Rightarrow> int \<Rightarrow> bool \<times> mem" where
  "solve_homography_svd N JacobiSVD mem a_ptr b_ptr x_ptr =
     (let svd = JacobiSVD (load_coeffs mem a_ptr)
      in if svd_info svd \<noteq> Success
         then (False, setConstant mem x_ptr 8 quiet_NaN)
         else let threshold = f32_mul N MATRIX_SVD_EPSILON (maxCoeff 8 (singularValues svd))
              in if any_coeff 8 (\<lambda>s. f32_lt (f32_abs s) threshold) (singularValues svd)
                 then (False, setConstant mem x_ptr 8 quiet_NaN)
                 else let mem1 = store_coeffs mem x_ptr 8
                                   (svd_solve svd (load_coeffs mem b_ptr))
                      in if any_coeff 8 f32_is_nan (load_coeffs mem1 x_ptr)
                         then (False, mem1)
                         else (True, mem1))"

section \<open>The 128-bit vector operations\<close>

text \<open>
  A \<open>v128_t\<close> value is seen as four 32-bit lanes, lane 0 first.  The intrinsics of
  \<open>wasm_simd128.h\<close> that the source calls are given lane by lane, as the WebAssembly
  SIMD instructions of the same names are specified: loads and stores move four
  consecutive floats, a shuffle picks lanes out of the eight lanes of its two arguments,
  a comparison yields a lane of all ones or all zeros, and \<open>bitselect\<close> takes each bit
  from its first argument where the mask bit is 1 and from the second where it is 0.
\<close>

datatype v128 = V128 f32 f32 f32 f32

fun v128_lanes :: "v128 \<Rightarrow> f32 list" where
  "v128_lanes (V128 a b c d) = [a, b, c, d]"

fun lanewise1 :: "(f32 \<Rightarrow> f32) \<Rightarrow> v128 \<Rightarrow> v128" where
  "lanewise1 f (V128 a0 a1 a2 a3) = V128 (f a0) (f a1) (f a2) (f a3)"

fun lanewise2 :: "(f32 \<Rightarrow> f32 \<Rightarrow> f32) \<Rightarrow> v128 \<Rightarrow> v128 \<Rightarrow> v128" where
  "lanewise2 f (V128 a0 a1 a2 a3) (V128 b0 b1 b2 b3) =
     V128 (f a0 b0) (f a1 b1) (f a2 b2) (f a3 b3)"

fun lanewise3 :: "(f32 \<Rightarrow> f32 \<Rightarrow> f32 \<Rightarrow> f32) \<Rightarrow> v128 \<Rightarrow> v128 \<Rightarrow> v128 \<Rightarrow> v128" where
  "lanewise3 f (V128 a0 a1 a2 a3) (V128 b0 b1 b2 b3) (V128 c0 c1 c2 c3) =
     V128 (f a0 b0 c0) (f a1 b1 c1) (f a2 b2 c2) (f a3 b3 c3)"

definition wasm_f32x4_splat :: "f32 \<Rightarrow> v128" where
  "wasm_f32x4_splat x = V128 x x x x"

definition wasm_v128_load :: "mem \<Rightarrow> int \<Rightarrow> v128" where
  "wasm_v128_load mem p = V128 (mem p) (mem (p + 1)) (mem (p + 2)) (mem (p + 3))"

fun wasm_v128_store :: "mem \<Rightarrow> int \<Rightarrow> v128 \<Rightarrow> mem" where
  "wasm_v128_store mem p (V128 a b c d) = mem(p := a, p + 1 := b, p + 2 := c, p + 3 := d)"

definition wasm_i32x4_shuffle :: "v128 \<Rightarrow> v128 \<Rightarrow> nat \<Rightarrow> nat \<Rightarrow> nat \<Rightarrow> nat \<Rightarrow> v128" where
  "wasm_i32x4_shuffle a b c0 c1 c2 c3 =
     (let l = v128_lanes a @ v128_lanes b
      in V128 (l ! c0) (l ! c1) (l ! c2) (l ! c3))"

definition wasm_f32x4_mul :: "nan_rule \<Rightarrow> v128 \<Rightarrow> v128 \<Rightarrow> v128" where
  "wasm_f32x4_mul N = lanewise2 (f32_mul N)"

definition wasm_f32x4_add :: "nan_rule \<Rightarrow> v128 \<Rightarrow> v128 \<Rightarrow> v128" where
  "wasm_f32x4_add N = lanewise2 (f32_add N)"

definition wasm_f32x4_div :: "nan_rule \<Rightarrow> v128 \<Rightarrow> v128 \<Rightarrow> v128" where
  "wasm_f32x4_div N = lanewise2 (f32_div N)"

definition wasm_f32x4_abs :: "v128 \<Rightarrow> v128" where
  "wasm_f32x4_abs = lanewise1 f32_abs"

definition ge_lane :: "f32 \<Rightarrow> f32 \<Rightarrow> f32" where
  "ge_lane x y = (if f32_ge x y then 0xFFFFFFFF else 0)"

definition wasm_f32x4_ge :: "v128 \<Rightarrow> v128 \<Rightarrow> v128" where
  "wasm_f32x4_ge = lanewise2 ge_lane"

definition bitselect_lane :: "f32 \<Rightarrow> f32 \<Rightarrow> f32 \<Rightarrow> f32" where
  "bitselect_lane v1 v2 c = (v1 AND c) OR (v2 AND NOT c)"

definition wasm_v128_bitselect :: "v128 \<Rightarrow> v128 \<Rightarrow> v128 \<Rightarrow> v128" where
  "wasm_v128_bitselect = lanewise3 bitselect_lane"

section \<open>transform_points_batch\<close>

text \<open>
  The vectors that the function builds once before its loops: the nine matrix
  coefficients (named \<open>m0\<close> to \<open>m8\<close> in column-major order, as the source names
  them), the threshold, one and NaN, each repeated in four lanes.
\<close>

record simd_consts =
  m0_v :: v128
  m1_v :: v128
  m2_v :: v128
  m3_v :: v128
  m4_v :: v128
  m5_v :: v128
  m6_v :: v128
  m7_v :: v128
  m8_v :: v128
  epsilon_v :: v128
  one_v :: v128
  nan_v :: v128

text \<open>One round of the main loop: four points, from \<open>pts_in[2 i ..]\<close> to \<open>pts_out[2 i ..]\<close>.\<close>

definition simd_body :: "nan_rule \<Rightarrow> simd_consts \<Rightarrow> int \<Rightarrow> int \<Rightarrow> int \<Rightarrow> mem \<Rightarrow> mem" where
  "simd_body N k pts_in pts_out i mem =
     (let base_idx = i * 2;
          points_xy12 = wasm_v128_load mem (pts_in + base_idx);
          points_xy34 = wasm_v128_load mem (pts_in + (base_idx + 4));
          x1234 = wasm_i32x4_shuffle points_xy12 points_xy34 0 2 4 6;
          y1234 = wasm_i32x4_shuffle points_xy12 points_xy34 1 3 5 7;
          x_p1 = wasm_f32x4_mul N (m0_v k) x1234;
          x_p2 = wasm_f32x4_mul N (m3_v k) y1234;
          x_unscaled = wasm_f32x4_add N (wasm_f32x4_add N x_p1 x_p2) (m6_v k);
          y_p1 = wasm_f32x4_mul N (m1_v k) x1234;
          y_p2 = wasm_f32x4_mul N (m4_v k) y1234;
          y_unscaled = wasm_f32x4_add N (wasm_f32x4_add N y_p1 y_p2) (m7_v k);
          w_p1 = wasm_f32x4_mul N (m2_v k) x1234;
          w_p2 = wasm_f32x4_mul N (m5_v k) y1234;
          w = wasm_f32x4_add N (wasm_f32x4_add N w_p1 w_p2) (m8_v k);
          w_abs = wasm_f32x4_abs w;
          valid_w_mask = wasm_f32x4_ge w_abs (epsilon_v k);
          inv_w = wasm_f32x4_div N (one_v k) w;
          x_scaled = wasm_f32x4_mul N x_unscaled inv_w;
          y_scaled = wasm_f32x4_mul N y_unscaled inv_w;
          x_final = wasm_v128_bitselect x_scaled (nan_v k) valid_w_mask;
          y_final = wasm_v128_bitselect y_scaled (nan_v k) valid_w_mask;
          out_xy12 = wasm_i32x4_shuffle x_final y_final 0 4 1 5;
          out_xy34 = wasm_i32x4_shuffle x_final y_final 2 6 3 7;
          mem1 = wasm_v128_store mem (pts_out + base_idx) out_xy12
      in wasm_v128_store mem1 (pts_out + (base_idx + 4)) out_xy34)"

text \<open>
  The main loop, \<open>for (; i < num_points_simd; i += 4)\<close>.  It returns the store and the
  value of \<open>i\<close> at which it stopped, where the scalar loop goes on.
\<close>

function simd_loop :: "nan_rule \<Rightarrow> simd_consts \<Rightarrow> int \<Rightarrow> int \<Rightarrow> int \<Rightarrow> int \<Rightarrow> mem \<Rightarrow> int \<times> mem" where
  "simd_loop N k pts_in pts_out num_points_simd i mem =
     (if i < num_points_simd
      then simd_loop N k pts_in pts_out num_points_simd (i + 4) (simd_body N k pts_in pts_out i mem)
      else (i, mem))"
  by pat_completeness auto
termination
  by (relation "measure (\<lambda>(N, k, pts_in, pts_out, num_points_simd, i, mem).
                           nat (num_points_simd - i))") auto

declare simd_loop.simps [simp del]

text \<open>The nine scalar coefficients that the residual loop reads before it starts.\<close>

record scalar_consts =
  m0_s :: f32
  m1_s :: f32
  m2_s :: f32
  m3_s :: f32
  m4_s :: f32
  m5_s :: f32
  m6_s :: f32
  m7_s :: f32
  m8_s :: f32

text \<open>One round of the residual loop: the point \<open>i\<close>.\<close>

definition scalar_body :: "nan_rule \<Rightarrow> scalar_consts \<Rightarrow> int \<Rightarrow> int \<Rightarrow> int \<Rightarrow> mem \<Rightarrow> mem" where
  "scalar_body N s pts_in pts_out i mem =
     (let idx = i * 2;
          x_in = mem (pts_in + idx);
          y_in = mem (pts_in + (idx + 1));
          X = f32_add N (f32_add N (f32_mul N (m0_s s) x_in) (f32_mul N (m3_s s) y_in)) (m6_s s);
          Y = f32_add N (f32_add N (f32_mul N (m1_s s) x_in) (f32_mul N (m4_s s) y_in)) (m7_s s);
          W = f32_add N (f32_add N (f32_mul N (m2_s s) x_in) (f32_mul N (m5_s s) y_in)) (m8_s s)
      in if f32_lt (f32_abs W) MATRIX_SVD_EPSILON
         then (mem(pts_out + idx := quiet_NaN))(pts_out + (idx + 1) := quiet_NaN)
         else let invW = f32_div N f32_one W
              in (mem(pts_out + idx := f32_mul N X invW))
                    (pts_out + (idx + 1) := f32_mul N Y invW))"

function scalar_loop :: "nan_rule \<Rightarrow> scalar_consts \<Rightarrow> int \<Rightarrow> int \<Rightarrow> int \<Rightarrow> int \<Rightarrow> mem \<Rightarrow> mem" where
  "scalar_loop N s pts_in pts_out num_points i mem =
     (if i < num_points
      then scalar_loop N s pts_in pts_out num_points (i + 1) (scalar_body N s pts_in pts_out i mem)
      else mem)"
  by pat_completeness auto
termination
  by (relation "measure (\<lambda>(N, s, pts_in, pts_out, num_points, i, mem).
                           nat (num_points - i))")
     auto

declare scalar_loop.simps [simp del]

definition read_scalar_consts :: "mem \<Rightarrow> int \<Rightarrow> scalar_consts" where
  "read_scalar_consts mem matrix_ptr =
     \<lparr>m0_s = Matrix3f_coeff mem matrix_ptr 0 0,
      m1_s = Matrix3f_coeff mem matrix_ptr 1 0,
      m2_s = Matrix3f_coeff mem matrix_ptr 2 0,
      m3_s = Matrix3f_coeff mem matrix_ptr 0 1,
      m4_s = Matrix3f_coeff mem matrix_ptr 1 1,
      m5_s = Matrix3f_coeff mem matrix_ptr 2 1,
      m6_s = Matrix3f_coeff mem matrix_ptr 0 2,
      m7_s = Matrix3f_coeff mem matrix_ptr 1 2,
      m8_s = Matrix3f_coeff mem matrix_ptr 2 2\<rparr>"

definition read_simd_consts :: "mem \<Rightarrow> int \<Rightarrow> simd_consts" where
  "read_simd_consts mem matrix_ptr =
     \<lparr>m0_v = wasm_f32x4_splat (Matrix3f_coeff mem matrix_ptr 0 0),
      m1_v = wasm_f32x4_splat (Matrix3f_coeff mem matrix_ptr 1 0),
      m2_v = wasm_f32x4_splat (Matrix3f_coeff mem matrix_ptr 2 0),
      m3_v = wasm_f32x4_splat (Matrix3f_coeff mem matrix_ptr 0 1),
      m4_v = wasm_f32x4_splat (Matrix3f_coeff mem matrix_ptr 1 1),
      m5_v = wasm_f32x4_splat (Matrix3f_coeff mem matrix_ptr 2 1),
      m6_v = wasm_f32x4_splat (Matrix3f_coeff mem matrix_ptr 0 2),
      m7_v = wasm_f32x4_splat (Matrix3f_coeff mem matrix_ptr 1 2),
      m8_v = wasm_f32x4_splat (Matrix3f_coeff mem matrix_ptr 2 2),
      epsilon_v = wasm_f32x4_splat MATRIX_SVD_EPSILON,
      one_v = wasm_f32x4_splat f32_one,
      nan_v = wasm_f32x4_splat quiet_NaN\<rparr>"

text \<open>
  The whole function.  \<open>num_points\<close> is a C++ \<open>int\<close>, whose \<open>%\<close> truncates towards
  zero (\<open>smod\<close>).  The model computes with unbounded integers: \<open>i * 2\<close> stays below
  \<open>2^31\<close> for every batch that fits the 32-bit address space of the target.  The
  matrix is read through its \<open>Map\<close>, hence from the store as it is at the time of the
  read: before the main loop for the vectors, after it for the scalars.
\<close>

definition transform_points_batch :: "nan_rule \<Rightarrow> mem \<Rightarrow> int \<Rightarrow> int \<Rightarrow> int \<Rightarrow> int \<Rightarrow> mem" where
  "transform_points_batch N mem matrix_ptr points_in_ptr points_out_ptr num_points =
     (let k = read_simd_consts mem matrix_ptr;
          num_points_simd = num_points - (num_points smod 4);
          (i, mem1) = simd_loop N k points_in_ptr points_out_ptr num_points_simd 0 mem
      in if i < num_points
         then scalar_loop N (read_scalar_consts mem1 matrix_ptr)
                points_in_ptr points_out_ptr num_points i mem1
         else mem1)"


section \<open>Instances of the decompositions\<close>

text \<open>
  Concrete values of the two parameters, at which the theorems below are applied:
  a decomposition with determinant \<open>+0\<close>; one with determinant \<open>1\<close> whose inverse
  holds only NaN; a singular value decomposition with the singular values
  \<open>1, 1, 1, 1, 1, 1, 1, 0\<close>; and one with eight singular values \<open>0.5\<close> whose solve
  step overflows in its first component, so that the solved vector is
  \<open>(+Inf, NaN, ..., NaN)\<close>.
\<close>

definition f32_half :: f32 where
  "f32_half = 0x3F000000"

definition lu_zero :: full_piv_lu where
  "lu_zero = (\<lambda>_. \<lparr>lu_determinant = f32_zero, lu_inverse = (\<lambda>_. f32_zero)\<rparr>)"

definition lu_nan_inverse :: full_piv_lu where
  "lu_nan_inverse = (\<lambda>_. \<lparr>lu_determinant = f32_one, lu_inverse = (\<lambda>_. quiet_NaN)\<rparr>)"

definition svd_rank7 :: jacobi_svd where
  "svd_rank7 = (\<lambda>_. \<lparr>svd_info = Success,
                      singularValues = (\<lambda>k. if k < 7 then f32_one else f32_zero),
                      svd_solve = (\<lambda>b. b)\<rparr>)"

definition svd_overflowing_solve :: jacobi_svd where
  "svd_overflowing_solve =
     (\<lambda>_. \<lparr>svd_info = Success,
           singularValues = (\<lambda>_. f32_half),
           svd_solve = (\<lambda>_ k. if k = 0 then f32_inf else quiet_NaN)\<rparr>)"

section \<open>The result of a batch, point by point\<close>

text \<open>
  The two floats that one round of the residual loop computes from one input point
  \<open>(x_in, y_in)\<close>: the formula of \<open>scalar_body\<close> without the store.
\<close>

definition point_result :: "nan_rule \<Rightarrow> scalar_consts \<Rightarrow> f32 \<Rightarrow> f32 \<Rightarrow> f32 \<times> f32" where
  "point_result N s x_in y_in =
     (let X = f32_add N (f32_add N (f32_mul N (m0_s s) x_in) (f32_mul N (m3_s s) y_in)) (m6_s s);
          Y = f32_add N (f32_add N (f32_mul N (m1_s s) x_in) (f32_mul N (m4_s s) y_in)) (m7_s s);
          W = f32_add N (f32_add N (f32_mul N (m2_s s) x_in) (f32_mul N (m5_s s) y_in)) (m8_s s)
      in if f32_lt (f32_abs W) MATRIX_SVD_EPSILON then (quiet_NaN, quiet_NaN)
         else (f32_mul N X (f32_div N f32_one W), f32_mul N Y (f32_div N f32_one W)))"

text \<open>
  The two floats that one lane of the main loop computes from the same point: the
  scaled values where the mask \<open>|W| >= epsilon\<close> is set, the NaN constant elsewhere.
\<close>

definition point_result_v :: "nan_rule \<Rightarrow> scalar_consts \<Rightarrow> f32 \<Rightarrow> f32 \<Rightarrow> f32 \<times> f32" where
  "point_result_v N s x_in y_in =
     (let X = f32_add N (f32_add N (f32_mul N (m0_s s) x_in) (f32_mul N (m3_s s) y_in)) (m6_s s);
          Y = f32_add N (f32_add N (f32_mul N (m1_s s) x_in) (f32_mul N (m4_s s) y_in)) (m7_s s);
          W = f32_add N (f32_add N (f32_mul N (m2_s s) x_in) (f32_mul N (m5_s s) y_in)) (m8_s s)
      in if f32_ge (f32_abs W) MATRIX_SVD_EPSILON
         then (f32_mul N X (f32_div N f32_one W), f32_mul N Y (f32_div N f32_one W))
         else (quiet_NaN, quiet_NaN))"

text \<open>The vectors of the main loop, from the scalar coefficients.\<close>

definition splat_consts :: "scalar_consts \<Rightarrow> simd_consts" where
  "splat_consts s =
     \<lparr>m0_v = wasm_f32x4_splat (m0_s s), m1_v = wasm_f32x4_splat (m1_s s),
      m2_v = wasm_f32x4_splat (m2_s s), m3_v = wasm_f32x4_splat (m3_s s),
      m4_v = wasm_f32x4_splat (m4_s s), m5_v = wasm_f32x4_splat (m5_s s),
      m6_v = wasm_f32x4_splat (m6_s s), m7_v = wasm_f32x4_splat (m7_s s),
      m8_v = wasm_f32x4_splat (m8_s s),
      epsilon_v = wasm_f32x4_splat MATRIX_SVD_EPSILON,
      one_v = wasm_f32x4_splat f32_one,
      nan_v = wasm_f32x4_splat quiet_NaN\<rparr>"

text \<open>
  The store in which the first \<open>n\<close> points of the output buffer hold the results for
  the first \<open>n\<close> points that \<open>mem\<close> has in the input buffer, those before the point
  \<open>nv\<close> as a vector lane computes them and the others as the residual loop does, and
  every other slot is as in \<open>mem\<close>.
\<close>

definition batch_result ::
  "nan_rule \<Rightarrow> mem \<Rightarrow> scalar_consts \<Rightarrow> int \<Rightarrow> int \<Rightarrow> int \<Rightarrow> int \<Rightarrow> mem" where
  "batch_result N mem s pts_in pts_out nv n =
     (\<lambda>a. if pts_out \<le> a \<and> a < pts_out + 2 * n
          then let i = (a - pts_out) div 2;
                   x_in = mem (pts_in + 2 * i);
                   y_in = mem (pts_in + 2 * i + 1);
                   p = (if i < nv then point_result_v N s x_in y_in
                        else point_result N s x_in y_in)
               in if even (a - pts_out) then fst p else snd p
          else mem a)"

text \<open>
  The contract of the call: the \<open>2 n\<close> floats of the output buffer overlap neither
  the \<open>2 n\<close> floats of the input buffer nor the nine floats of the matrix.
\<close>

definition buffers_disjoint :: "int \<Rightarrow> int \<Rightarrow> int \<Rightarrow> bool" where
  "buffers_disjoint pts_in pts_out n = (pts_in + 2 * n \<le> pts_out \<or> pts_out + 2 * n \<le> pts_in)"

definition matrix_disjoint :: "int \<Rightarrow> int \<Rightarrow> int \<Rightarrow> bool" where
  "matrix_disjoint matrix_ptr pts_out n = (matrix_ptr + 9 \<le> pts_out \<or> pts_out + 2 * n \<le> matrix_ptr)"

section \<open>Example stores\<close>

text \<open>
  A store with the matrix \<open>diag(1, 1, 3)\<close> in the slots 0 to 8, the point
  \<open>(5, 0)\<close> in the slots 9 and 10, and \<open>+0\<close> everywhere else; and the same store
  with another float in slot 13.
\<close>

definition example_store :: mem where
  "example_store =
     (\<lambda>a. if a = 0 \<or> a = 4 then f32_one
          else if a = 8 then 0x40400000
          else if a = 9 then 0x40A00000
          else f32_zero)"

definition example_store2 :: mem where
  "example_store2 = example_store(13 := f32_one)"

text \<open>The identity matrix: as scalar coefficients, and as a property of a store.\<close>

definition identity_consts :: scalar_consts where
  "identity_consts =
     \<lparr>m0_s = f32_one, m1_s = f32_zero, m2_s = f32_zero,
      m3_s = f32_zero, m4_s = f32_one, m5_s = f32_zero,
      m6_s = f32_zero, m7_s = f32_zero, m8_s = f32_one\<rparr>"

definition holds_identity :: "mem \<Rightarrow> int \<Rightarrow> bool" where
  "holds_identity mem ptr =
     list_all (\<lambda>r. list_all (\<lambda>c. Matrix3f_coeff mem ptr r c
                                   = (if r = c then f32_one else f32_zero)) [0, 1, 2]) [0, 1, 2]"

text \<open>
  A store with the identity matrix in the slots 0 to 8 and \<open>+0\<close> elsewhere; the
  same with the point \<open>(5, -0)\<close> in the slots 9 and 10; the same with the point
  \<open>(+Inf, 0)\<close> there; and a store that holds \<open>2^100\<close> in every slot.
\<close>

definition identity_matrix_store :: mem where
  "identity_matrix_store = (\<lambda>a. if a = 0 \<or> a = 4 \<or> a = 8 then f32_one else f32_zero)"

definition identity_store :: mem where
  "identity_store = identity_matrix_store(9 := 0x40A00000, 10 := 0x80000000)"

definition identity_inf_store :: mem where
  "identity_inf_store = identity_matrix_store(9 := f32_inf)"

definition overflow_store :: mem where
  "overflow_store = (\<lambda>_. 0x71800000)"

section \<open>Basic facts about floats and views\<close>

lemma f32_is_nan_quiet_NaN: "f32_is_nan quiet_NaN"
  by (simp add: f32_is_nan_def quiet_NaN_def f32_mag_def INF_MAG_def)

lemma MATRIX_INVERSE_EPSILON_bits: "MATRIX_INVERSE_EPSILON = 0x33D6BF95"
  by code_simp

lemma MATRIX_SVD_EPSILON_bits: "MATRIX_SVD_EPSILON = 0x358637BD"
  by code_simp

lemma f32_ge_not_lt: "f32_ge a b \<Longrightarrow> \<not> f32_lt a b"
  by (simp add: f32_ge_def f32_lt_def)

lemma any_coeff_iff: "any_coeff n P v \<longleftrightarrow> (\<exists>k<n. P (v k))"
  by (auto simp: any_coeff_def list_ex_iff)

lemma store_coeffs_inside:
  "0 \<le> k \<Longrightarrow> k < int n \<Longrightarrow> store_coeffs mem ptr n v (ptr + k) = v (nat k)"
  by (simp add: store_coeffs_def)

lemma setConstant_inside:
  "0 \<le> k \<Longrightarrow> k < int n \<Longrightarrow> setConstant mem ptr n c (ptr + k) = c"
  by (simp add: setConstant_def store_coeffs_def)

lemma setConstant_outside:
  "a < ptr \<or> ptr + int n \<le> a \<Longrightarrow> setConstant mem ptr n c a = mem a"
  by (auto simp: setConstant_def store_coeffs_def)

section \<open>Sign and magnitude of a float\<close>

lemma f32_mag_bounds: "0 \<le> f32_mag x" "f32_mag x < 2 ^ 31"
proof -
  show "0 \<le> f32_mag x" by (simp add: f32_mag_def)
  have "x AND 0x7FFFFFFF \<le> 0x7FFFFFFF" by (rule word_and_le1)
  then have "uint (x AND 0x7FFFFFFF) \<le> uint (0x7FFFFFFF :: f32)"
    by (simp add: word_le_def)
  then show "f32_mag x < 2 ^ 31" by (simp add: f32_mag_def)
qed

lemma mask31: "(0x7FFFFFFF :: f32) = mask 31"
  by (simp add: mask_eq_exp_minus_1)

lemma f32_mag_make: "0 \<le> n \<Longrightarrow> n < 2 ^ 31 \<Longrightarrow> f32_mag (f32_make s n) = n"
proof -
  assume n: "0 \<le> n" "n < 2 ^ 31"
  have a: "(0x80000000 :: f32) AND mask 31 = 0"
    by (simp add: mask_eq_exp_minus_1)
  have "uint ((word_of_int n :: f32) AND mask 31) = take_bit 31 n"
    by (simp add: uint_word_of_int_eq take_bit_eq_mask [symmetric] unsigned_take_bit_eq min_def)
  also have "\<dots> = n" using n by (simp add: take_bit_int_eq_self)
  finally show ?thesis
    using a by (simp add: f32_mag_def f32_make_def mask31 bit.conj_disj_distrib2)
qed

lemma bit_sign_bit: "bit (0x80000000 :: f32) n \<longleftrightarrow> n = 31"
proof -
  have "(0x80000000 :: f32) = 2 ^ 31" by simp
  then show ?thesis by (simp only: bit_exp_iff) auto
qed

lemma f32_sign_make: "0 \<le> n \<Longrightarrow> n < 2 ^ 31 \<Longrightarrow> f32_sign (f32_make s n) = s"
proof -
  assume n: "0 \<le> n" "n < 2 ^ 31"
  then have "take_bit 31 n = n" by (simp add: take_bit_int_eq_self)
  then have "\<not> bit n 31"
    by (metis bit_take_bit_iff less_irrefl)
  then show ?thesis
    by (simp add: f32_sign_def f32_make_def bit_or_iff bit_word_of_int_iff bit_sign_bit)
qed

lemma f32_make_sign_mag: "f32_make (f32_sign x) (f32_mag x) = x"
proof (rule bit_word_eqI)
  fix n
  assume "n < LENGTH(32)"
  then have n: "n < 32" by simp
  have m: "bit (word_of_int (f32_mag x) :: f32) n \<longleftrightarrow> n < 31 \<and> bit x n"
    using n by (auto simp: f32_mag_def mask31 bit_and_iff bit_mask_iff)
  show "bit (f32_make (f32_sign x) (f32_mag x)) n \<longleftrightarrow> bit x n"
  proof (cases "n = 31")
    case True
    with m show ?thesis
      by (simp add: f32_make_def f32_sign_def bit_or_iff bit_sign_bit)
  next
    case False
    with n have "n < 31" by simp
    moreover from False have "\<not> bit (0x80000000 :: f32) n"
      by (simp only: bit_sign_bit) simp
    ultimately show ?thesis using m
      by (simp add: f32_make_def f32_sign_def bit_or_iff)
  qed
qed

lemma bit_sign_bit_int: "bit (0x80000000 :: int) n \<longleftrightarrow> n = 31"
proof -
  have "(0x80000000 :: int) = 2 ^ 31" by simp
  then show ?thesis by (simp only: bit_exp_iff) auto
qed

lemma f32_mag_neg: "f32_mag (f32_neg x) = f32_mag x"
proof -
  have "(x XOR 0x80000000) AND 0x7FFFFFFF = x AND 0x7FFFFFFF"
    by (rule bit_word_eqI)
       (auto simp: bit_and_iff bit_xor_iff mask31 bit_mask_iff
          dest: bit_sign_bit [THEN iffD1] bit_sign_bit_int [THEN iffD1])
  then show ?thesis by (simp add: f32_mag_def f32_neg_def)
qed

section \<open>The order of the magnitude patterns\<close>

lemma mag_units_split:
  assumes "0 \<le> m" "m < 2 ^ 23" "0 \<le> e"
  shows "mag_units (e * 2 ^ 23 + m) = (if e = 0 then m else (2 ^ 23 + m) * 2 ^ nat (e - 1))"
proof (cases "e = 0")
  case True
  with assms show ?thesis by (simp add: mag_units_def)
next
  case False
  with assms have e: "1 \<le> e" by simp
  then have "1 * 2 ^ 23 \<le> e * (2 ^ 23 :: int)" by (intro mult_right_mono) simp_all
  with assms have ge: "\<not> e * 2 ^ 23 + m < 2 ^ 23" by simp
  have d: "(e * 2 ^ 23 + m) div 2 ^ 23 = e"
    using assms by simp
  have r: "(e * 2 ^ 23 + m) mod 2 ^ 23 = m"
    using assms by simp
  show ?thesis
    unfolding mag_units_def using ge d r False by simp
qed

lemma mag_units_Suc:
  assumes "0 \<le> n"
  shows "mag_units n < mag_units (n + 1)"
proof -
  define e where "e = n div 2 ^ 23"
  define m where "m = n mod 2 ^ 23"
  have n: "n = e * 2 ^ 23 + m" by (simp add: e_def m_def)
  have m: "0 \<le> m" "m < 2 ^ 23" by (simp_all add: m_def)
  have e: "0 \<le> e" using assms by (simp add: e_def pos_imp_zdiv_nonneg_iff)
  have u: "mag_units n = (if e = 0 then m else (2 ^ 23 + m) * 2 ^ nat (e - 1))"
    unfolding n using m e by (rule mag_units_split)
  show ?thesis
  proof (cases "m + 1 < 2 ^ 23")
    case True
    have eq: "n + 1 = e * 2 ^ 23 + (m + 1)" by (simp add: n)
    have w: "mag_units (n + 1)
        = (if e = 0 then m + 1 else (2 ^ 23 + (m + 1)) * 2 ^ nat (e - 1))"
      unfolding eq using m True e by (intro mag_units_split) simp_all
    show ?thesis unfolding u w by simp
  next
    case False
    with m have m1: "m = 2 ^ 23 - 1" by simp
    have eq: "n + 1 = (e + 1) * 2 ^ 23 + 0" by (simp add: n m1 algebra_simps)
    have "mag_units (n + 1)
        = (if e + 1 = 0 then 0 else (2 ^ 23 + 0) * 2 ^ nat (e + 1 - 1))"
      unfolding eq using e by (intro mag_units_split) simp_all
    then have v: "mag_units (n + 1) = 2 ^ 23 * 2 ^ nat e"
      using e by simp
    show ?thesis
    proof (cases "e = 0")
      case True
      then show ?thesis unfolding u v m1 by simp
    next
      case False
      with e have "nat e = Suc (nat (e - 1))" by simp
      then have "(2::int) ^ nat e = 2 * 2 ^ nat (e - 1)" by simp
      with False show ?thesis unfolding u v m1 by simp
    qed
  qed
qed

lemma mag_units_strict_mono:
  assumes "0 \<le> a" "a < b"
  shows "mag_units a < mag_units b"
  using \<open>a < b\<close>
proof (induction b rule: int_gr_induct)
  case base
  from assms(1) show ?case by (rule mag_units_Suc)
next
  case (step i)
  from assms(1) step.hyps have "0 \<le> i" by simp
  then have "mag_units i < mag_units (i + 1)" by (rule mag_units_Suc)
  with step.IH show ?case by simp
qed

lemma mag_units_le_iff:
  assumes "0 \<le> a" "0 \<le> b"
  shows "mag_units a \<le> mag_units b \<longleftrightarrow> a \<le> b"
proof
  assume "mag_units a \<le> mag_units b"
  show "a \<le> b"
  proof (rule ccontr)
    assume "\<not> a \<le> b"
    then have "b < a" by simp
    with assms(2) have "mag_units b < mag_units a" by (rule mag_units_strict_mono)
    with \<open>mag_units a \<le> mag_units b\<close> show False by simp
  qed
next
  assume "a \<le> b"
  then consider "a = b" | "a < b" by linarith
  then show "mag_units a \<le> mag_units b"
  proof cases
    case 1
    then show ?thesis by simp
  next
    case 2
    with assms(1) have "mag_units a < mag_units b" by (rule mag_units_strict_mono)
    then show ?thesis by simp
  qed
qed

lemma mag_units_0: "mag_units 0 = 0"
  by (simp add: mag_units_def)

lemma mag_units_pos: "0 < n \<Longrightarrow> 0 < mag_units n"
  using mag_units_strict_mono [of 0 n] by (simp add: mag_units_0)

lemma mag_units_nonneg: "0 \<le> n \<Longrightarrow> 0 \<le> mag_units n"
  using mag_units_pos [of n] by (cases "n = 0") (simp_all add: mag_units_0)

section \<open>Rounding\<close>

text \<open>
  The rounded magnitude is never beyond infinity, so rounding never yields a NaN; and
  a value that a finite float represents is rounded to that float.
\<close>

lemma floor_mag_lower: "acc \<le> floor_mag k acc p q"
proof (induction k arbitrary: acc)
  case 0
  show ?case by simp
next
  case (Suc k)
  have "acc \<le> acc + 2 ^ k" by simp
  also have "acc + 2 ^ k \<le> floor_mag k (acc + 2 ^ k) p q" by (rule Suc.IH)
  finally show ?case using Suc.IH [of acc] by (simp add: Let_def)
qed

lemma floor_mag_finite: "acc < INF_MAG \<Longrightarrow> floor_mag k acc p q < INF_MAG"
  by (induction k arbitrary: acc) (simp_all add: Let_def)

lemma round_mag_bounds: "0 \<le> round_mag p q" "round_mag p q \<le> INF_MAG"
proof -
  have i: "(0::int) < INF_MAG" by (simp add: INF_MAG_def)
  have a: "0 \<le> floor_mag 31 0 p q" by (rule floor_mag_lower)
  have b: "floor_mag 31 0 p q < INF_MAG" using i by (rule floor_mag_finite)
  from a i show "0 \<le> round_mag p q" by (simp add: round_mag_def Let_def)
  from b show "round_mag p q \<le> INF_MAG" by (simp add: round_mag_def Let_def)
qed

lemma floor_mag_exact:
  "0 < q \<Longrightarrow> 0 \<le> acc \<Longrightarrow> acc \<le> x \<Longrightarrow> x < acc + 2 ^ k \<Longrightarrow> x < INF_MAG
   \<Longrightarrow> floor_mag k acc (mag_units x * q) q = x"
proof (induction k arbitrary: acc)
  case 0
  then show ?case by simp
next
  case (Suc k)
  let ?c = "acc + 2 ^ k"
  from Suc.prems have c0: "0 \<le> ?c" and x0: "0 \<le> x" by simp_all
  from \<open>0 < q\<close> have "mag_units ?c * q \<le> mag_units x * q \<longleftrightarrow> mag_units ?c \<le> mag_units x"
    by simp
  also have "\<dots> \<longleftrightarrow> ?c \<le> x" using c0 x0 by (rule mag_units_le_iff)
  finally have iff: "mag_units ?c * q \<le> mag_units x * q \<longleftrightarrow> ?c \<le> x" .
  show ?case
  proof (cases "?c \<le> x")
    case True
    with Suc.prems have "?c < INF_MAG" by simp
    moreover from True Suc.prems c0 have "floor_mag k ?c (mag_units x * q) q = x"
      by (intro Suc.IH) simp_all
    ultimately show ?thesis using True iff by (simp add: Let_def)
  next
    case False
    with Suc.prems have "floor_mag k acc (mag_units x * q) q = x"
      by (intro Suc.IH) simp_all
    with False iff show ?thesis by (simp add: Let_def)
  qed
qed

lemma round_mag_exact:
  assumes q: "0 < q" and x: "0 \<le> x" "x < INF_MAG"
  shows "round_mag (mag_units x * q) q = x"
proof -
  have i: "(0::int) \<le> INF_MAG" by (simp add: INF_MAG_def)
  from x have "mag_units x < mag_units INF_MAG" by (intro mag_units_strict_mono)
  with q have a: "\<not> mag_units INF_MAG * q \<le> mag_units x * q" by simp
  have "x < 0 + 2 ^ 31" using x by (simp add: INF_MAG_def)
  with q x have f: "floor_mag 31 0 (mag_units x * q) q = x"
    by (intro floor_mag_exact) simp_all
  from x have "mag_units x < mag_units (x + 1)" by (intro mag_units_Suc)
  with q have "mag_units x * q < mag_units (x + 1) * q" by simp
  then have b: "2 * (mag_units x * q) < mag_units x * q + mag_units (x + 1) * q" by linarith
  show ?thesis
    unfolding round_mag_def Let_def f using a b by simp
qed

lemma f32_is_nan_round: "\<not> f32_is_nan (f32_round s p q)"
proof -
  have "round_mag p q < 2 ^ 31"
    using round_mag_bounds(2) [of p q] by (simp add: INF_MAG_def)
  then have "f32_mag (f32_make s (round_mag p q)) = round_mag p q"
    using round_mag_bounds(1) [of p q] by (intro f32_mag_make)
  then show ?thesis
    using round_mag_bounds(2) [of p q] by (simp add: f32_is_nan_def f32_round_def)
qed

lemma f32_round_exact:
  "0 < q \<Longrightarrow> f32_mag x < INF_MAG
   \<Longrightarrow> f32_round (f32_sign x) (mag_units (f32_mag x) * q) q = x"
  by (simp add: f32_round_def round_mag_exact f32_mag_bounds f32_make_sign_mag)

section \<open>Products and sums with one and zero\<close>

lemma f32_one_mag: "f32_mag f32_one = 0x3F800000"
  by (simp add: f32_mag_def f32_one_def)

lemma f32_one_units: "mag_units 0x3F800000 = 2 ^ 149"
  by (simp add: mag_units_def)

lemma f32_one_sign: "\<not> f32_sign f32_one"
  by (simp add: f32_sign_def f32_one_def)

lemma f32_zero_mag: "f32_mag f32_zero = 0"
  by (simp add: f32_mag_def f32_zero_def)

lemma f32_zero_sign: "\<not> f32_sign f32_zero"
  by (simp add: f32_sign_def f32_zero_def)

lemma f32_make_zero: "f32_make False 0 = f32_zero"
  by (simp add: f32_make_def f32_zero_def)

lemma f32_mag_make_zero: "f32_mag (f32_make s 0) = 0"
  by (rule f32_mag_make) simp_all

lemma round_mag_zero: "0 < q \<Longrightarrow> round_mag 0 q = 0"
  using round_mag_exact [of q 0] by (simp add: mag_units_0 INF_MAG_def)

lemma f32_mul_one_left: "f32_is_finite x \<Longrightarrow> f32_mul N f32_one x = x"
proof -
  assume x: "f32_is_finite x"
  then have m: "f32_mag x < INF_MAG" by (simp add: f32_is_finite_def)
  have "f32_round (f32_sign x) (mag_units (f32_mag x) * 2 ^ 149) (2 ^ 149) = x"
    using m by (intro f32_round_exact) simp_all
  with m show ?thesis
    by (simp add: f32_mul_def f32_is_nan_def f32_is_inf_def f32_is_zero_def f32_one_mag
          f32_one_units f32_one_sign INF_MAG_def mult.commute)
qed

lemma f32_mul_one_right: "f32_is_finite x \<Longrightarrow> f32_mul N x f32_one = x"
proof -
  assume x: "f32_is_finite x"
  then have m: "f32_mag x < INF_MAG" by (simp add: f32_is_finite_def)
  have "f32_round (f32_sign x) (mag_units (f32_mag x) * 2 ^ 149) (2 ^ 149) = x"
    using m by (intro f32_round_exact) simp_all
  with m show ?thesis
    by (simp add: f32_mul_def f32_is_nan_def f32_is_inf_def f32_is_zero_def f32_one_mag
          f32_one_units f32_one_sign INF_MAG_def mult.commute)
qed

lemma f32_mul_zero_left: "f32_is_finite y \<Longrightarrow> f32_mul N f32_zero y = f32_make (f32_sign y) 0"
  by (simp add: f32_mul_def f32_is_finite_def f32_is_nan_def f32_is_inf_def f32_zero_mag
        f32_zero_sign mag_units_0 f32_round_def round_mag_zero INF_MAG_def)

lemma f32_units_zero: "f32_mag z = 0 \<Longrightarrow> f32_units z = 0"
  by (simp add: f32_units_def mag_units_0)

lemma f32_add_zero_right:
  assumes x: "f32_is_finite x" and z: "f32_is_zero z"
  shows "f32_add N x z = (if f32_is_zero x then f32_make (f32_sign x \<and> f32_sign z) 0 else x)"
proof -
  from x have m: "f32_mag x < INF_MAG" by (simp add: f32_is_finite_def)
  from z have zm: "f32_mag z = 0" by (simp add: f32_is_zero_def)
  have fin: "\<not> f32_is_nan x" "\<not> f32_is_nan z" "\<not> f32_is_inf x" "\<not> f32_is_inf z"
    using m zm by (simp_all add: f32_is_nan_def f32_is_inf_def INF_MAG_def)
  show ?thesis
  proof (cases "f32_mag x = 0")
    case True
    with zm fin show ?thesis
      by (simp add: f32_add_def f32_units_zero f32_is_zero_def)
  next
    case False
    with f32_mag_bounds(1) [of x] have "0 < f32_mag x" by simp
    then have p: "0 < mag_units (f32_mag x)" by (rule mag_units_pos)
    have r: "f32_round (f32_sign x) (mag_units (f32_mag x) * 1) 1 = x"
      using m by (intro f32_round_exact) simp_all
    from p r zm fin False show ?thesis
      by (cases "f32_sign x") (simp_all add: f32_add_def f32_is_zero_def f32_units_def mag_units_0 Let_def)
  qed
qed

lemma f32_add_zero_left:
  assumes x: "f32_is_finite x" and z: "f32_is_zero z"
  shows "f32_add N z x = (if f32_is_zero x then f32_make (f32_sign z \<and> f32_sign x) 0 else x)"
proof -
  from x have m: "f32_mag x < INF_MAG" by (simp add: f32_is_finite_def)
  from z have zm: "f32_mag z = 0" by (simp add: f32_is_zero_def)
  have fin: "\<not> f32_is_nan x" "\<not> f32_is_nan z" "\<not> f32_is_inf x" "\<not> f32_is_inf z"
    using m zm by (simp_all add: f32_is_nan_def f32_is_inf_def INF_MAG_def)
  show ?thesis
  proof (cases "f32_mag x = 0")
    case True
    with zm fin show ?thesis
      by (simp add: f32_add_def f32_units_zero f32_is_zero_def)
  next
    case False
    with f32_mag_bounds(1) [of x] have "0 < f32_mag x" by simp
    then have p: "0 < mag_units (f32_mag x)" by (rule mag_units_pos)
    have r: "f32_round (f32_sign x) (mag_units (f32_mag x) * 1) 1 = x"
      using m by (intro f32_round_exact) simp_all
    from p r zm fin False show ?thesis
      by (cases "f32_sign x") (simp_all add: f32_add_def f32_is_zero_def f32_units_def mag_units_0 Let_def)
  qed
qed

lemma f32_div_one_one: "f32_div N f32_one f32_one = f32_one"
proof -
  have "f32_round (f32_sign f32_one) (mag_units (f32_mag f32_one) * 2 ^ 149) (2 ^ 149) = f32_one"
    by (intro f32_round_exact) (simp_all add: f32_one_mag INF_MAG_def)
  then show ?thesis
    by (simp add: f32_div_def f32_is_nan_def f32_is_inf_def f32_is_zero_def f32_one_mag
          f32_one_units f32_one_sign INF_MAG_def)
qed

lemma one_not_below_eps: "\<not> f32_lt (f32_abs f32_one) MATRIX_SVD_EPSILON"
  by code_simp

section \<open>The NaN rule of the SSE instructions\<close>



section \<open>Inversion: the singularity policy\<close>

text \<open>
  Claim C5.  Whenever the magnitude of the determinant that the LU decomposition
  reports is below \<open>MATRIX_INVERSE_EPSILON\<close>, \<open>invert_matrix\<close> returns 0 and each of
  the nine slots of the output matrix holds NaN.
\<close>

theorem invert_matrix_singular_fills_nan:
  "f32_lt (f32_abs (lu_determinant (FullPivLU (load_coeffs mem m_ptr)))) MATRIX_INVERSE_EPSILON
   \<Longrightarrow> fst (invert_matrix FullPivLU mem m_ptr out_ptr) = 0
     \<and> (\<forall>k. 0 \<le> k \<and> k < 9 \<longrightarrow>
           snd (invert_matrix FullPivLU mem m_ptr out_ptr) (out_ptr + k) = quiet_NaN
           \<and> f32_is_nan (snd (invert_matrix FullPivLU mem m_ptr out_ptr) (out_ptr + k)))"
  by (simp add: invert_matrix_def Let_def setConstant_inside f32_is_nan_quiet_NaN)

theorem invert_matrix_singular_fills_nan_witness:
  "f32_lt (f32_abs (lu_determinant (lu_zero (load_coeffs (\<lambda>_. f32_zero) 0))))
      MATRIX_INVERSE_EPSILON
   \<and> fst (invert_matrix lu_zero (\<lambda>_. f32_zero) 0 9) = 0
   \<and> f32_is_nan (snd (invert_matrix lu_zero (\<lambda>_. f32_zero) 0 9) (9 + 4))"
proof -
  have h: "f32_lt (f32_abs (lu_determinant (lu_zero (load_coeffs (\<lambda>_. f32_zero) 0))))
             MATRIX_INVERSE_EPSILON"
    by code_simp
  note t = invert_matrix_singular_fills_nan [of lu_zero "\<lambda>_. f32_zero" 0 9, OF h]
  from t [THEN conjunct2, THEN spec, of 4]
  have "f32_is_nan (snd (invert_matrix lu_zero (\<lambda>_. f32_zero) 0 9) (9 + 4))"
    by (simp add: f32_is_nan_quiet_NaN)
  with h t [THEN conjunct1] show ?thesis
    by simp
qed

text \<open>
  Claim C4.  Whenever the magnitude of the determinant is at least
  \<open>MATRIX_INVERSE_EPSILON\<close>, \<open>invert_matrix\<close> returns 1 and the output holds the
  inverse that the decomposition computed, whatever that inverse contains: the test
  for NaN and Inf after the inversion changes neither the status nor the output.
\<close>

theorem invert_matrix_status_ignores_finiteness:
  "f32_ge (f32_abs (lu_determinant (FullPivLU (load_coeffs mem m_ptr)))) MATRIX_INVERSE_EPSILON
   \<Longrightarrow> fst (invert_matrix FullPivLU mem m_ptr out_ptr) = 1
     \<and> (\<forall>k. 0 \<le> k \<and> k < 9 \<longrightarrow>
           snd (invert_matrix FullPivLU mem m_ptr out_ptr) (out_ptr + k)
             = lu_inverse (FullPivLU (load_coeffs mem m_ptr)) (nat k))"
  by (auto simp: invert_matrix_def Let_def store_coeffs_inside dest: f32_ge_not_lt)

theorem invert_matrix_status_ignores_finiteness_witness:
  "f32_ge (f32_abs (lu_determinant (lu_nan_inverse (load_coeffs (\<lambda>_. f32_zero) 0))))
      MATRIX_INVERSE_EPSILON
   \<and> fst (invert_matrix lu_nan_inverse (\<lambda>_. f32_zero) 0 9) = 1
   \<and> f32_is_nan (snd (invert_matrix lu_nan_inverse (\<lambda>_. f32_zero) 0 9) (9 + 0))"
proof -
  have h: "f32_ge (f32_abs (lu_determinant (lu_nan_inverse (load_coeffs (\<lambda>_. f32_zero) 0))))
             MATRIX_INVERSE_EPSILON"
    by code_simp
  note t = invert_matrix_status_ignores_finiteness
             [of lu_nan_inverse "\<lambda>_. f32_zero" 0 9, OF h]
  from t [THEN conjunct2, THEN spec, of 0]
  have "f32_is_nan (snd (invert_matrix lu_nan_inverse (\<lambda>_. f32_zero) 0 9) (9 + 0))"
    by (simp add: lu_nan_inverse_def f32_is_nan_quiet_NaN)
  with h t [THEN conjunct1] show ?thesis
    by simp
qed

section \<open>Homography solve: the conditioning policy\<close>

text \<open>
  Claim C6.  When the decomposition reports \<open>Success\<close> and the magnitude of some
  singular value is below \<open>MATRIX_SVD_EPSILON\<close> times the largest singular value,
  \<open>solve_homography_svd\<close> returns false and each of the eight slots of the output
  vector holds NaN.
\<close>

theorem solve_homography_svd_rank_deficient:
  "svd_info (JacobiSVD (load_coeffs mem a_ptr)) = Success
   \<Longrightarrow> \<exists>k<8. f32_lt (f32_abs (singularValues (JacobiSVD (load_coeffs mem a_ptr)) k))
                (f32_mul N MATRIX_SVD_EPSILON
                   (maxCoeff 8 (singularValues (JacobiSVD (load_coeffs mem a_ptr)))))
   \<Longrightarrow> fst (solve_homography_svd N JacobiSVD mem a_ptr b_ptr x_ptr) = False
     \<and> (\<forall>k. 0 \<le> k \<and> k < 8 \<longrightarrow>
           snd (solve_homography_svd N JacobiSVD mem a_ptr b_ptr x_ptr) (x_ptr + k) = quiet_NaN
           \<and> f32_is_nan (snd (solve_homography_svd N JacobiSVD mem a_ptr b_ptr x_ptr) (x_ptr + k)))"
  by (simp add: solve_homography_svd_def Let_def any_coeff_iff setConstant_inside
        f32_is_nan_quiet_NaN)

theorem solve_homography_svd_rank_deficient_witness:
  "svd_info (svd_rank7 (load_coeffs (\<lambda>_. f32_zero) 0)) = Success
   \<and> f32_lt (f32_abs (singularValues (svd_rank7 (load_coeffs (\<lambda>_. f32_zero) 0)) 7))
        (f32_mul sse_nan_rule MATRIX_SVD_EPSILON
           (maxCoeff 8 (singularValues (svd_rank7 (load_coeffs (\<lambda>_. f32_zero) 0)))))
   \<and> fst (solve_homography_svd sse_nan_rule svd_rank7 (\<lambda>_. f32_zero) 0 64 72) = False
   \<and> f32_is_nan (snd (solve_homography_svd sse_nan_rule svd_rank7 (\<lambda>_. f32_zero) 0 64 72) (72 + 3))"
proof -
  have h1: "svd_info (svd_rank7 (load_coeffs (\<lambda>_. f32_zero) 0)) = Success"
    by (simp add: svd_rank7_def)
  have h2: "f32_lt (f32_abs (singularValues (svd_rank7 (load_coeffs (\<lambda>_. f32_zero) 0)) 7))
        (f32_mul sse_nan_rule MATRIX_SVD_EPSILON
           (maxCoeff 8 (singularValues (svd_rank7 (load_coeffs (\<lambda>_. f32_zero) 0)))))"
    by code_simp
  then have h3: "\<exists>k<8. f32_lt
        (f32_abs (singularValues (svd_rank7 (load_coeffs (\<lambda>_. f32_zero) 0)) k))
        (f32_mul sse_nan_rule MATRIX_SVD_EPSILON
           (maxCoeff 8 (singularValues (svd_rank7 (load_coeffs (\<lambda>_. f32_zero) 0)))))"
    by (intro exI [of _ 7]) simp
  note t = solve_homography_svd_rank_deficient
             [where JacobiSVD = svd_rank7 and mem = "\<lambda>_. f32_zero" and a_ptr = 0
                and N = sse_nan_rule and b_ptr = 64 and x_ptr = 72, OF h1 h3]
  from t [THEN conjunct2, THEN spec, of 3]
  have "f32_is_nan (snd (solve_homography_svd sse_nan_rule svd_rank7 (\<lambda>_. f32_zero) 0 64 72) (72 + 3))"
    by (simp add: f32_is_nan_quiet_NaN)
  with h1 h2 t [THEN conjunct1] show ?thesis
    by simp
qed

text \<open>
  Claim C1.  The claim asks that every failure of \<open>solve_homography_svd\<close> leaves
  NaN in all eight output slots.  The two early failure paths do so, by
  \<open>setConstant\<close>.  The third one, taken when the solved vector contains a NaN, returns
  false with the solved vector left in the output as it is.  At a decomposition that
  passes the conditioning test and whose solved vector is \<open>(+Inf, NaN, ..., NaN)\<close>,
  the function returns false and the first output slot holds \<open>+Inf\<close>, not NaN,
  whatever the NaN rule.
\<close>

theorem solve_homography_svd_failure_not_all_nan:
  "fst (solve_homography_svd N svd_overflowing_solve (\<lambda>_. f32_zero) 0 64 72) = False
   \<and> snd (solve_homography_svd N svd_overflowing_solve (\<lambda>_. f32_zero) 0 64 72) 72 = f32_inf
   \<and> \<not> f32_is_nan (snd (solve_homography_svd N svd_overflowing_solve (\<lambda>_. f32_zero) 0 64 72) 72)"
  by code_simp

section \<open>The vector path lane by lane\<close>

lemma f32_mag_abs: "f32_mag (f32_abs x) = f32_mag x"
  by (simp add: f32_mag_def f32_abs_def)

lemma f32_is_nan_abs: "f32_is_nan (f32_abs x) = f32_is_nan x"
  by (simp add: f32_is_nan_def f32_mag_abs)

lemma eps_not_nan: "\<not> f32_is_nan MATRIX_SVD_EPSILON"
  by (simp add: MATRIX_SVD_EPSILON_bits f32_is_nan_def f32_mag_def INF_MAG_def)

lemma f32_ge_iff_not_lt:
  "\<not> f32_is_nan a \<Longrightarrow> \<not> f32_is_nan b \<Longrightarrow> f32_ge a b \<longleftrightarrow> \<not> f32_lt a b"
  by (auto simp: f32_ge_def f32_lt_def)




lemma f32_ge_nan_left: "f32_is_nan a \<Longrightarrow> \<not> f32_ge a b"
  by (simp add: f32_ge_def)

lemma bitselect_ones: "(a AND 0xFFFFFFFF) OR (b AND NOT 0xFFFFFFFF) = (a::f32)"
proof -
  have m: "(0xFFFFFFFF :: f32) = - 1" by simp
  show ?thesis unfolding m by simp
qed

lemma bitselect_zeros: "(a AND 0) OR (b AND NOT 0) = (b::f32)"
  by simp

lemma lane_select:
  "bitselect_lane v quiet_NaN (ge_lane a e) = (if f32_ge a e then v else quiet_NaN)"
proof (cases "f32_ge a e")
  case True
  then show ?thesis
    by (simp only: bitselect_lane_def ge_lane_def if_True bitselect_ones)
next
  case False
  then show ?thesis
    by (simp only: bitselect_lane_def ge_lane_def if_False bitselect_zeros)
qed

text \<open>
  For one point, the vector lane and the residual loop give the same value in each
  coordinate.  They give the same bits unless \<open>W\<close> is a NaN; then the lane gives the NaN
  constant and the residual loop the NaN of \<open>X * (1 / W)\<close>.
\<close>

lemma point_result_v_cases:
  "point_result_v N s x y = point_result N s x y
   \<or> (point_result_v N s x y = (quiet_NaN, quiet_NaN)
      \<and> f32_is_nan (f32_add N (f32_add N (f32_mul N (m2_s s) x) (f32_mul N (m5_s s) y)) (m8_s s)))"
proof -
  let ?W = "f32_add N (f32_add N (f32_mul N (m2_s s) x) (f32_mul N (m5_s s) y)) (m8_s s)"
  show ?thesis
  proof (cases "f32_is_nan ?W")
    case True
    then have "f32_is_nan (f32_abs ?W)" by (simp add: f32_is_nan_abs)
    then have "\<not> f32_ge (f32_abs ?W) MATRIX_SVD_EPSILON" by (rule f32_ge_nan_left)
    with True show ?thesis by (simp add: point_result_v_def Let_def)
  next
    case False
    then have "\<not> f32_is_nan (f32_abs ?W)" by (simp add: f32_is_nan_abs)
    then have "f32_ge (f32_abs ?W) MATRIX_SVD_EPSILON
                 \<longleftrightarrow> \<not> f32_lt (f32_abs ?W) MATRIX_SVD_EPSILON"
      by (rule f32_ge_iff_not_lt) (rule eps_not_nan)
    then show ?thesis by (simp add: point_result_v_def point_result_def Let_def)
  qed
qed



lemma scalar_body_eq:
  "scalar_body N s pts_in pts_out i mem =
     (mem(pts_out + 2 * i := fst (point_result N s (mem (pts_in + 2 * i)) (mem (pts_in + 2 * i + 1)))))
        (pts_out + 2 * i + 1 := snd (point_result N s (mem (pts_in + 2 * i)) (mem (pts_in + 2 * i + 1))))"
  by (simp add: scalar_body_def point_result_def Let_def mult.commute add.assoc)

lemma simd_body_eq:
  "simd_body N (splat_consts s) pts_in pts_out i mem =
     mem(pts_out + 2 * i := fst (point_result_v N s (mem (pts_in + 2 * i)) (mem (pts_in + 2 * i + 1))),
         pts_out + 2 * i + 1 := snd (point_result_v N s (mem (pts_in + 2 * i)) (mem (pts_in + 2 * i + 1))),
         pts_out + 2 * i + 2 := fst (point_result_v N s (mem (pts_in + 2 * i + 2)) (mem (pts_in + 2 * i + 3))),
         pts_out + 2 * i + 3 := snd (point_result_v N s (mem (pts_in + 2 * i + 2)) (mem (pts_in + 2 * i + 3))),
         pts_out + 2 * i + 4 := fst (point_result_v N s (mem (pts_in + 2 * i + 4)) (mem (pts_in + 2 * i + 5))),
         pts_out + 2 * i + 5 := snd (point_result_v N s (mem (pts_in + 2 * i + 4)) (mem (pts_in + 2 * i + 5))),
         pts_out + 2 * i + 6 := fst (point_result_v N s (mem (pts_in + 2 * i + 6)) (mem (pts_in + 2 * i + 7))),
         pts_out + 2 * i + 7 := snd (point_result_v N s (mem (pts_in + 2 * i + 6)) (mem (pts_in + 2 * i + 7))))"
  by (simp add: simd_body_def splat_consts_def Let_def wasm_f32x4_splat_def wasm_v128_load_def
        wasm_i32x4_shuffle_def wasm_f32x4_mul_def wasm_f32x4_add_def wasm_f32x4_div_def
        wasm_f32x4_abs_def wasm_f32x4_ge_def wasm_v128_bitselect_def lane_select
        point_result_v_def mult.commute add.assoc)

section \<open>The loops\<close>

lemma batch_result_empty: "n \<le> 0 \<Longrightarrow> batch_result N mem s pts_in pts_out nv n = mem"
  by (auto simp: batch_result_def fun_eq_iff)

lemma batch_result_input:
  "buffers_disjoint pts_in pts_out n \<Longrightarrow> 0 \<le> j \<Longrightarrow> j < 2 * n \<Longrightarrow> i \<le> n
   \<Longrightarrow> batch_result N mem s pts_in pts_out nv i (pts_in + j) = mem (pts_in + j)"
  by (auto simp: batch_result_def buffers_disjoint_def)

lemma batch_result_x:
  "0 \<le> j \<Longrightarrow> j < n \<Longrightarrow> batch_result N mem s pts_in pts_out nv n (pts_out + 2 * j)
     = fst (if j < nv then point_result_v N s (mem (pts_in + 2 * j)) (mem (pts_in + 2 * j + 1))
            else point_result N s (mem (pts_in + 2 * j)) (mem (pts_in + 2 * j + 1)))"
  by (simp add: batch_result_def Let_def)

lemma batch_result_y:
  "0 \<le> j \<Longrightarrow> j < n \<Longrightarrow> batch_result N mem s pts_in pts_out nv n (pts_out + 2 * j + 1)
     = snd (if j < nv then point_result_v N s (mem (pts_in + 2 * j)) (mem (pts_in + 2 * j + 1))
            else point_result N s (mem (pts_in + 2 * j)) (mem (pts_in + 2 * j + 1)))"
  by (simp add: batch_result_def Let_def)

lemma batch_result_outside:
  "a < pts_out \<or> pts_out + 2 * n \<le> a \<Longrightarrow> batch_result N mem s pts_in pts_out nv n a = mem a"
  by (auto simp: batch_result_def)

lemma batch_result_grow:
  "a < pts_out + 2 * n \<or> pts_out + 2 * n' \<le> a \<Longrightarrow> n \<le> n'
   \<Longrightarrow> batch_result N mem s pts_in pts_out nv n' a = batch_result N mem s pts_in pts_out nv n a"
  by (auto simp: batch_result_def)

lemma scalar_step:
  assumes "buffers_disjoint pts_in pts_out n" and "0 \<le> i" and "i < n" and nv: "nv \<le> i"
  shows "scalar_body N s pts_in pts_out i (batch_result N mem s pts_in pts_out nv i)
           = batch_result N mem s pts_in pts_out nv (i + 1)"
proof -
  have r0: "batch_result N mem s pts_in pts_out nv i (pts_in + 2 * i) = mem (pts_in + 2 * i)"
    using assms by (intro batch_result_input [where n = n]) auto
  have r1: "batch_result N mem s pts_in pts_out nv i (pts_in + 2 * i + 1)
              = mem (pts_in + 2 * i + 1)"
    using assms batch_result_input [where n = n and j = "2 * i + 1" and i = i]
    by (simp add: add.assoc)
  show ?thesis
    unfolding scalar_body_eq r0 r1
  proof
    fix a :: int
    consider "a = pts_out + 2 * i" | "a = pts_out + 2 * i + 1"
      | "a < pts_out + 2 * i" | "pts_out + 2 * (i + 1) \<le> a"
      by atomize_elim presburger
    then show "((batch_result N mem s pts_in pts_out nv i)
          (pts_out + 2 * i := fst (point_result N s (mem (pts_in + 2 * i)) (mem (pts_in + 2 * i + 1))),
           pts_out + 2 * i + 1 := snd (point_result N s (mem (pts_in + 2 * i)) (mem (pts_in + 2 * i + 1))))) a
         = batch_result N mem s pts_in pts_out nv (i + 1) a"
    proof cases
      case 1
      with assms show ?thesis by (simp add: batch_result_x)
    next
      case 2
      with assms show ?thesis by (simp add: batch_result_y)
    next
      case 3
      then have "batch_result N mem s pts_in pts_out nv (i + 1) a
                   = batch_result N mem s pts_in pts_out nv i a"
        by (intro batch_result_grow) auto
      with 3 show ?thesis by simp
    next
      case 4
      then have "batch_result N mem s pts_in pts_out nv (i + 1) a
                   = batch_result N mem s pts_in pts_out nv i a"
        by (intro batch_result_grow) auto
      with 4 show ?thesis by simp
    qed
  qed
qed

lemma simd_step:
  assumes d: "buffers_disjoint pts_in pts_out n" and i0: "0 \<le> i" and i4: "i + 4 \<le> n"
    and nv: "i + 4 \<le> nv"
  shows "simd_body N (splat_consts s) pts_in pts_out i (batch_result N mem s pts_in pts_out nv i)
           = batch_result N mem s pts_in pts_out nv (i + 4)"
proof -
  let ?cur = "batch_result N mem s pts_in pts_out nv i"
  have r: "?cur (pts_in + 2 * i + j) = mem (pts_in + 2 * i + j)"
    if "0 \<le> j" "j < 8" for j
    using that d i0 i4 batch_result_input [where n = n and j = "2 * i + j" and i = i]
    by (simp add: add.assoc)
  have r0: "?cur (pts_in + 2 * i) = mem (pts_in + 2 * i)"
    using r [of 0] by simp
  have r': "?cur (pts_in + (2 * i + j)) = mem (pts_in + (2 * i + j))"
    if "0 \<le> j" "j < 8" for j
    using r [OF that] by (simp add: add.assoc)
  have px: "batch_result N mem s pts_in pts_out nv (i + 4) (pts_out + 2 * (i + k))
      = fst (point_result_v N s (mem (pts_in + 2 * (i + k))) (mem (pts_in + 2 * (i + k) + 1)))"
    if "0 \<le> k" "k < 4" for k
    using that i0 nv batch_result_x [where j = "i + k" and n = "i + 4" and nv = nv]
    by simp
  have py: "batch_result N mem s pts_in pts_out nv (i + 4) (pts_out + 2 * (i + k) + 1)
      = snd (point_result_v N s (mem (pts_in + 2 * (i + k))) (mem (pts_in + 2 * (i + k) + 1)))"
    if "0 \<le> k" "k < 4" for k
    using that i0 nv batch_result_y [where j = "i + k" and n = "i + 4" and nv = nv]
    by simp
  show ?thesis
    unfolding simd_body_eq r0
  proof
    fix a :: int
    consider "a = pts_out + 2 * i" | "a = pts_out + 2 * i + 1"
      | "a = pts_out + 2 * (i + 1)" | "a = pts_out + 2 * (i + 1) + 1"
      | "a = pts_out + 2 * (i + 2)" | "a = pts_out + 2 * (i + 2) + 1"
      | "a = pts_out + 2 * (i + 3)" | "a = pts_out + 2 * (i + 3) + 1"
      | "a < pts_out + 2 * i" | "pts_out + 2 * (i + 4) \<le> a"
      by atomize_elim presburger
    then show "(?cur
         (pts_out + 2 * i := fst (point_result_v N s (mem (pts_in + 2 * i))
                                   (?cur (pts_in + 2 * i + 1))),
          pts_out + 2 * i + 1 := snd (point_result_v N s (mem (pts_in + 2 * i))
                                   (?cur (pts_in + 2 * i + 1))),
          pts_out + 2 * i + 2 := fst (point_result_v N s
                                   (?cur (pts_in + 2 * i + 2)) (?cur (pts_in + 2 * i + 3))),
          pts_out + 2 * i + 3 := snd (point_result_v N s
                                   (?cur (pts_in + 2 * i + 2)) (?cur (pts_in + 2 * i + 3))),
          pts_out + 2 * i + 4 := fst (point_result_v N s
                                   (?cur (pts_in + 2 * i + 4)) (?cur (pts_in + 2 * i + 5))),
          pts_out + 2 * i + 5 := snd (point_result_v N s
                                   (?cur (pts_in + 2 * i + 4)) (?cur (pts_in + 2 * i + 5))),
          pts_out + 2 * i + 6 := fst (point_result_v N s
                                   (?cur (pts_in + 2 * i + 6)) (?cur (pts_in + 2 * i + 7))),
          pts_out + 2 * i + 7 := snd (point_result_v N s
                                   (?cur (pts_in + 2 * i + 6)) (?cur (pts_in + 2 * i + 7))))) a
         = batch_result N mem s pts_in pts_out nv (i + 4) a"
    proof cases
      case 1
      with px [of 0] show ?thesis by (simp add: r)
    next
      case 2
      with py [of 0] show ?thesis by (simp add: r)
    next
      case 3
      with px [of 1] show ?thesis by (simp add: r' add.assoc)
    next
      case 4
      with py [of 1] show ?thesis by (simp add: r' add.assoc)
    next
      case 5
      with px [of 2] show ?thesis by (simp add: r' add.assoc)
    next
      case 6
      with py [of 2] show ?thesis by (simp add: r' add.assoc)
    next
      case 7
      with px [of 3] show ?thesis by (simp add: r' add.assoc)
    next
      case 8
      with py [of 3] show ?thesis by (simp add: r' add.assoc)
    next
      case 9
      then have "batch_result N mem s pts_in pts_out nv (i + 4) a = ?cur a"
        by (intro batch_result_grow) auto
      with 9 show ?thesis by simp
    next
      case 10
      then have "batch_result N mem s pts_in pts_out nv (i + 4) a = ?cur a"
        by (intro batch_result_grow) auto
      with 10 show ?thesis by simp
    qed
  qed
qed

lemma smod4_nonneg: "0 \<le> n \<Longrightarrow> (n::int) smod 4 = n mod 4"
  by (cases "n = 0") (simp_all add: smod_int_alt_def)

lemma smod4_neg: "n < 0 \<Longrightarrow> (n::int) - n smod 4 \<le> 0"
proof -
  assume n: "n < 0"
  have "n smod 4 = - (\<bar>n\<bar> mod 4)" using n by (simp add: smod_int_alt_def)
  moreover have "\<bar>n\<bar> mod 4 \<le> \<bar>n\<bar>" by (rule zmod_le_nonneg_dividend) simp
  ultimately show ?thesis using n by simp
qed

lemma scalar_loop_result:
  "buffers_disjoint pts_in pts_out n \<Longrightarrow> 0 \<le> i \<Longrightarrow> i \<le> n \<Longrightarrow> nv \<le> i
   \<Longrightarrow> cur = batch_result N mem s pts_in pts_out nv i
   \<Longrightarrow> scalar_loop N s pts_in pts_out n i cur = batch_result N mem s pts_in pts_out nv n"
proof (induction N s pts_in pts_out n i cur rule: scalar_loop.induct)
  case (1 N s pts_in pts_out n i cur)
  show ?case
  proof (cases "i < n")
    case True
    with "1.prems"
    have "scalar_body N s pts_in pts_out i cur = batch_result N mem s pts_in pts_out nv (i + 1)"
      by (simp add: scalar_step)
    with True "1.prems" "1.IH" [OF True] show ?thesis
      by (subst scalar_loop.simps) simp
  next
    case False
    with "1.prems" have "i = n" by simp
    with "1.prems" show ?thesis
      by (subst scalar_loop.simps) simp
  qed
qed

lemma simd_loop_result:
  "buffers_disjoint pts_in pts_out n \<Longrightarrow> 0 \<le> i \<Longrightarrow> i \<le> ns \<Longrightarrow> ns \<le> n
   \<Longrightarrow> 4 dvd (ns - i) \<Longrightarrow> k = splat_consts s
   \<Longrightarrow> cur = batch_result N mem s pts_in pts_out ns i
   \<Longrightarrow> simd_loop N k pts_in pts_out ns i cur = (ns, batch_result N mem s pts_in pts_out ns ns)"
proof (induction N k pts_in pts_out ns i cur rule: simd_loop.induct)
  case (1 N k pts_in pts_out ns i cur)
  show ?case
  proof (cases "i < ns")
    case True
    with "1.prems" have i4: "i + 4 \<le> ns" by presburger
    with "1.prems"
    have "simd_body N k pts_in pts_out i cur = batch_result N mem s pts_in pts_out ns (i + 4)"
      by (simp add: simd_step)
    moreover from "1.prems" have "4 dvd (ns - (i + 4))" by presburger
    ultimately show ?thesis
      using True "1.prems" i4 "1.IH" [OF True]
      by (subst simd_loop.simps) simp
  next
    case False
    with "1.prems" have "i = ns" by simp
    with "1.prems" show ?thesis
      by (subst simd_loop.simps) simp
  qed
qed

lemma read_simd_consts_splat:
  "read_simd_consts mem matrix_ptr = splat_consts (read_scalar_consts mem matrix_ptr)"
  by (simp add: read_simd_consts_def splat_consts_def read_scalar_consts_def)

lemma read_scalar_consts_batch_result:
  "matrix_disjoint matrix_ptr pts_out n \<Longrightarrow> i \<le> n
   \<Longrightarrow> read_scalar_consts (batch_result N mem s pts_in pts_out nv i) matrix_ptr
       = read_scalar_consts mem matrix_ptr"
proof -
  assume m: "matrix_disjoint matrix_ptr pts_out n" and i: "i \<le> n"
  have "batch_result N mem s pts_in pts_out nv i (matrix_ptr + j) = mem (matrix_ptr + j)"
    if "0 \<le> j" "j < 9" for j
    using m i that by (intro batch_result_outside) (auto simp: matrix_disjoint_def)
  from this [of 0] this [of 1] this [of 2] this [of 3] this [of 4] this [of 5] this [of 6]
    this [of 7] this [of 8]
  show ?thesis
    by (simp add: read_scalar_consts_def Matrix3f_coeff_def)
qed

lemma transform_points_batch_result:
  assumes d: "buffers_disjoint pts_in pts_out n" and m: "matrix_disjoint matrix_ptr pts_out n"
  shows "transform_points_batch N mem matrix_ptr pts_in pts_out n
           = batch_result N mem (read_scalar_consts mem matrix_ptr) pts_in pts_out
               (n - n smod 4) n"
proof (cases "0 < n")
  case False
  then have "n - n smod 4 \<le> 0"
    using smod4_neg [of n] by (cases "n = 0") simp_all
  then have "simd_loop N k pts_in pts_out (n - n smod 4) 0 mem = (0, mem)" for k
    by (subst simd_loop.simps) simp
  with False show ?thesis
    by (simp add: transform_points_batch_def batch_result_empty)
next
  case True
  let ?s = "read_scalar_consts mem matrix_ptr"
  let ?ns = "n - n smod 4"
  from True have ns: "?ns = n - n mod 4" by (simp add: smod4_nonneg)
  have ns0: "0 \<le> ?ns" and nsn: "?ns \<le> n" and dv: "4 dvd (?ns - 0)"
    unfolding ns using True by presburger+
  have "mem = batch_result N mem ?s pts_in pts_out ?ns 0"
    by (simp add: batch_result_empty)
  with d ns0 nsn dv
  have sl: "simd_loop N (read_simd_consts mem matrix_ptr) pts_in pts_out ?ns 0 mem
          = (?ns, batch_result N mem ?s pts_in pts_out ?ns ?ns)"
    by (intro simd_loop_result [where n = n]) (simp_all add: read_simd_consts_splat)
  show ?thesis
  proof (cases "?ns < n")
    case True
    have "scalar_loop N ?s pts_in pts_out n ?ns (batch_result N mem ?s pts_in pts_out ?ns ?ns)
            = batch_result N mem ?s pts_in pts_out ?ns n"
      using d ns0 nsn by (intro scalar_loop_result) simp_all
    with True sl m nsn show ?thesis
      by (simp add: transform_points_batch_def read_scalar_consts_batch_result)
  next
    case False
    with nsn have "?ns = n" by simp
    with sl show ?thesis
      by (simp add: transform_points_batch_def)
  qed
qed


text \<open>
  The value of one output slot after the call: of a vector lane for the points before
  \<open>num_points - num_points % 4\<close>, of the residual loop for the others.
\<close>

lemma transform_points_batch_x:
  assumes "buffers_disjoint pts_in pts_out n" and "matrix_disjoint matrix_ptr pts_out n"
    and "0 \<le> i" and "i < n"
  shows "transform_points_batch N mem matrix_ptr pts_in pts_out n (pts_out + 2 * i)
           = fst (if i < n - n smod 4
                  then point_result_v N (read_scalar_consts mem matrix_ptr)
                         (mem (pts_in + 2 * i)) (mem (pts_in + 2 * i + 1))
                  else point_result N (read_scalar_consts mem matrix_ptr)
                         (mem (pts_in + 2 * i)) (mem (pts_in + 2 * i + 1)))"
  using assms by (simp add: transform_points_batch_result batch_result_x)

lemma transform_points_batch_y:
  assumes "buffers_disjoint pts_in pts_out n" and "matrix_disjoint matrix_ptr pts_out n"
    and "0 \<le> i" and "i < n"
  shows "transform_points_batch N mem matrix_ptr pts_in pts_out n (pts_out + 2 * i + 1)
           = snd (if i < n - n smod 4
                  then point_result_v N (read_scalar_consts mem matrix_ptr)
                         (mem (pts_in + 2 * i)) (mem (pts_in + 2 * i + 1))
                  else point_result N (read_scalar_consts mem matrix_ptr)
                         (mem (pts_in + 2 * i)) (mem (pts_in + 2 * i + 1)))"
  using assms by (simp add: transform_points_batch_result batch_result_y)



section \<open>What the loops leave unchanged\<close>

lemma wasm_v128_store_frame:
  "a < p \<or> p + 4 \<le> a \<Longrightarrow> wasm_v128_store mem p v a = mem a"
  by (cases v) auto

lemma simd_body_frame:
  "a < pts_out + 2 * i \<or> pts_out + 2 * i + 8 \<le> a
   \<Longrightarrow> simd_body N k pts_in pts_out i mem a = mem a"
  by (auto simp: simd_body_def Let_def wasm_v128_store_frame)

lemma scalar_body_frame:
  "a < pts_out + 2 * i \<or> pts_out + 2 * i + 2 \<le> a
   \<Longrightarrow> scalar_body N s pts_in pts_out i mem a = mem a"
  by (auto simp: scalar_body_eq)

lemma scalar_loop_frame:
  "a < pts_out + 2 * i \<or> pts_out + 2 * n \<le> a
   \<Longrightarrow> scalar_loop N s pts_in pts_out n i mem a = mem a"
proof (induction N s pts_in pts_out n i mem rule: scalar_loop.induct)
  case (1 N s pts_in pts_out n i mem)
  show ?case
  proof (cases "i < n")
    case True
    with "1.prems" have "scalar_body N s pts_in pts_out i mem a = mem a"
      by (intro scalar_body_frame) auto
    moreover from True "1.prems"
    have "scalar_loop N s pts_in pts_out n (i + 1) (scalar_body N s pts_in pts_out i mem) a
            = scalar_body N s pts_in pts_out i mem a"
      by (intro "1.IH") auto
    ultimately show ?thesis using True
      by (subst scalar_loop.simps) simp
  next
    case False
    then show ?thesis by (subst scalar_loop.simps) simp
  qed
qed

lemma simd_loop_frame:
  "4 dvd (ns - i) \<Longrightarrow> a < pts_out + 2 * i \<or> pts_out + 2 * ns \<le> a
   \<Longrightarrow> snd (simd_loop N k pts_in pts_out ns i mem) a = mem a"
proof (induction N k pts_in pts_out ns i mem rule: simd_loop.induct)
  case (1 N k pts_in pts_out ns i mem)
  show ?case
  proof (cases "i < ns")
    case True
    with "1.prems" have i4: "i + 4 \<le> ns" by presburger
    with "1.prems" have "simd_body N k pts_in pts_out i mem a = mem a"
      by (intro simd_body_frame) auto
    moreover from "1.prems" have "4 dvd (ns - (i + 4))" by presburger
    with True "1.prems"
    have "snd (simd_loop N k pts_in pts_out ns (i + 4) (simd_body N k pts_in pts_out i mem)) a
            = simd_body N k pts_in pts_out i mem a"
      by (intro "1.IH") auto
    ultimately show ?thesis using True
      by (subst simd_loop.simps) simp
  next
    case False
    then show ?thesis by (subst simd_loop.simps) simp
  qed
qed

lemma simd_loop_index:
  "4 dvd (ns - i) \<Longrightarrow> i \<le> ns \<Longrightarrow> fst (simd_loop N k pts_in pts_out ns i mem) = ns"
proof (induction N k pts_in pts_out ns i mem rule: simd_loop.induct)
  case (1 N k pts_in pts_out ns i mem)
  show ?case
  proof (cases "i < ns")
    case True
    with "1.prems" have i4: "i + 4 \<le> ns" by presburger
    moreover from "1.prems" have "4 dvd (ns - (i + 4))" by presburger
    ultimately show ?thesis using True "1.IH" [OF True]
      by (subst simd_loop.simps) simp
  next
    case False
    with "1.prems" show ?thesis by (subst simd_loop.simps) simp
  qed
qed

lemma transform_points_batch_nonpositive:
  assumes "n \<le> 0"
  shows "transform_points_batch N mem matrix_ptr pts_in pts_out n = mem"
proof -
  from assms have "n - n smod 4 \<le> 0"
    using smod4_neg [of n] by (cases "n = 0") simp_all
  then have "simd_loop N k pts_in pts_out (n - n smod 4) 0 mem = (0, mem)" for k
    by (subst simd_loop.simps) simp
  with assms show ?thesis
    by (simp add: transform_points_batch_def)
qed

lemma transform_points_batch_frame:
  assumes a: "a < pts_out \<or> pts_out + 2 * n \<le> a"
  shows "transform_points_batch N mem matrix_ptr pts_in pts_out n a = mem a"
proof (cases "0 < n")
  case False
  then show ?thesis by (simp add: transform_points_batch_nonpositive)
next
  case True
  let ?k = "read_simd_consts mem matrix_ptr"
  let ?ns = "n - n smod 4"
  let ?r = "simd_loop N ?k pts_in pts_out ?ns 0 mem"
  from True have ns: "?ns = n - n mod 4" by (simp add: smod4_nonneg)
  have ns0: "0 \<le> ?ns" and nsn: "?ns \<le> n" and dv: "4 dvd (?ns - 0)"
    unfolding ns using True by presburger+
  from dv ns0 have f: "fst ?r = ?ns" by (rule simd_loop_index)
  from a nsn have "a < pts_out + 2 * 0 \<or> pts_out + 2 * ?ns \<le> a" by auto
  with dv have s: "snd ?r a = mem a" by (rule simd_loop_frame)
  from a nsn ns0 have "a < pts_out + 2 * ?ns \<or> pts_out + 2 * n \<le> a" by auto
  then have "scalar_loop N sc pts_in pts_out n ?ns (snd ?r) a = snd ?r a" for sc
    by (rule scalar_loop_frame)
  with f s show ?thesis
    by (simp add: transform_points_batch_def Let_def split_beta)
qed

section \<open>Batch projection: the claims\<close>




text \<open>
  Claim C3, amended.  Under the same contract, for the point \<open>i\<close> of the batch with
  input \<open>(x, y)\<close>, and \<open>X = M00 x + M01 y + M02\<close>, \<open>Y = M10 x + M11 y + M12\<close>,
  \<open>W = M20 x + M21 y + M22\<close> in float arithmetic, the output slot \<open>i\<close> holds
  \<open>(NaN, NaN)\<close> when \<open>|W| < MATRIX_SVD_EPSILON\<close>, and otherwise
  \<open>(X * (1 / W), Y * (1 / W))\<close>: the product with the rounded reciprocal of \<open>W\<close>.
  When \<open>W\<close> is a NaN, where these products are NaNs, the slot may hold the NaN
  constant in their place, as a vector lane writes it.
\<close>

theorem transform_points_batch_projection:
  "buffers_disjoint points_in_ptr points_out_ptr num_points
   \<Longrightarrow> matrix_disjoint matrix_ptr points_out_ptr num_points
   \<Longrightarrow> 0 \<le> i \<Longrightarrow> i < num_points
   \<Longrightarrow> X = f32_add N (f32_add N (f32_mul N (Matrix3f_coeff mem matrix_ptr 0 0) (mem (points_in_ptr + 2 * i)))
                               (f32_mul N (Matrix3f_coeff mem matrix_ptr 0 1) (mem (points_in_ptr + 2 * i + 1))))
                    (Matrix3f_coeff mem matrix_ptr 0 2)
   \<Longrightarrow> Y = f32_add N (f32_add N (f32_mul N (Matrix3f_coeff mem matrix_ptr 1 0) (mem (points_in_ptr + 2 * i)))
                               (f32_mul N (Matrix3f_coeff mem matrix_ptr 1 1) (mem (points_in_ptr + 2 * i + 1))))
                    (Matrix3f_coeff mem matrix_ptr 1 2)
   \<Longrightarrow> W = f32_add N (f32_add N (f32_mul N (Matrix3f_coeff mem matrix_ptr 2 0) (mem (points_in_ptr + 2 * i)))
                               (f32_mul N (Matrix3f_coeff mem matrix_ptr 2 1) (mem (points_in_ptr + 2 * i + 1))))
                    (Matrix3f_coeff mem matrix_ptr 2 2)
   \<Longrightarrow> (transform_points_batch N mem matrix_ptr points_in_ptr points_out_ptr num_points
          (points_out_ptr + 2 * i)
        = (if f32_lt (f32_abs W) MATRIX_SVD_EPSILON then quiet_NaN
           else f32_mul N X (f32_div N f32_one W))
      \<and> transform_points_batch N mem matrix_ptr points_in_ptr points_out_ptr num_points
          (points_out_ptr + 2 * i + 1)
        = (if f32_lt (f32_abs W) MATRIX_SVD_EPSILON then quiet_NaN
           else f32_mul N Y (f32_div N f32_one W)))
     \<or> (f32_is_nan W
        \<and> transform_points_batch N mem matrix_ptr points_in_ptr points_out_ptr num_points
            (points_out_ptr + 2 * i) = quiet_NaN
        \<and> transform_points_batch N mem matrix_ptr points_in_ptr points_out_ptr num_points
            (points_out_ptr + 2 * i + 1) = quiet_NaN)"
proof -
  assume d: "buffers_disjoint points_in_ptr points_out_ptr num_points"
    and m: "matrix_disjoint matrix_ptr points_out_ptr num_points"
    and i: "0 \<le> i" "i < num_points"
    and X: "X = f32_add N (f32_add N (f32_mul N (Matrix3f_coeff mem matrix_ptr 0 0) (mem (points_in_ptr + 2 * i)))
                               (f32_mul N (Matrix3f_coeff mem matrix_ptr 0 1) (mem (points_in_ptr + 2 * i + 1))))
                    (Matrix3f_coeff mem matrix_ptr 0 2)"
    and Y: "Y = f32_add N (f32_add N (f32_mul N (Matrix3f_coeff mem matrix_ptr 1 0) (mem (points_in_ptr + 2 * i)))
                               (f32_mul N (Matrix3f_coeff mem matrix_ptr 1 1) (mem (points_in_ptr + 2 * i + 1))))
                    (Matrix3f_coeff mem matrix_ptr 1 2)"
    and W: "W = f32_add N (f32_add N (f32_mul N (Matrix3f_coeff mem matrix_ptr 2 0) (mem (points_in_ptr + 2 * i)))
                               (f32_mul N (Matrix3f_coeff mem matrix_ptr 2 1) (mem (points_in_ptr + 2 * i + 1))))
                    (Matrix3f_coeff mem matrix_ptr 2 2)"
  let ?s = "read_scalar_consts mem matrix_ptr"
  let ?x = "mem (points_in_ptr + 2 * i)"
  let ?y = "mem (points_in_ptr + 2 * i + 1)"
  let ?out = "transform_points_batch N mem matrix_ptr points_in_ptr points_out_ptr num_points"
  have p: "point_result N ?s ?x ?y
      = (if f32_lt (f32_abs W) MATRIX_SVD_EPSILON then (quiet_NaN, quiet_NaN)
         else (f32_mul N X (f32_div N f32_one W), f32_mul N Y (f32_div N f32_one W)))"
    by (simp add: point_result_def read_scalar_consts_def Let_def X Y W)
  have Ws: "W = f32_add N (f32_add N (f32_mul N (m2_s ?s) ?x) (f32_mul N (m5_s ?s) ?y)) (m8_s ?s)"
    by (simp add: read_scalar_consts_def W)
  from d m i have ox: "?out (points_out_ptr + 2 * i)
      = fst (if i < num_points - num_points smod 4 then point_result_v N ?s ?x ?y
             else point_result N ?s ?x ?y)"
    by (rule transform_points_batch_x)
  from d m i have oy: "?out (points_out_ptr + 2 * i + 1)
      = snd (if i < num_points - num_points smod 4 then point_result_v N ?s ?x ?y
             else point_result N ?s ?x ?y)"
    by (rule transform_points_batch_y)
  from point_result_v_cases [of N ?s ?x ?y]
  have "point_result_v N ?s ?x ?y = point_result N ?s ?x ?y
        \<or> (point_result_v N ?s ?x ?y = (quiet_NaN, quiet_NaN) \<and> f32_is_nan W)"
    unfolding Ws .
  then show ?thesis
    unfolding ox oy using p by (auto split: if_splits)
qed

theorem transform_points_batch_projection_witness:
  "buffers_disjoint 9 19 5 \<and> matrix_disjoint 0 19 5 \<and> (0::int) \<le> 0 \<and> (0::int) < 5
   \<and> \<not> f32_is_nan (f32_add sse_nan_rule (f32_add sse_nan_rule (f32_mul sse_nan_rule (Matrix3f_coeff example_store 0 2 0) (example_store (9 + 2 * 0)))
                                  (f32_mul sse_nan_rule (Matrix3f_coeff example_store 0 2 1) (example_store (9 + 2 * 0 + 1))))
                         (Matrix3f_coeff example_store 0 2 2))
   \<and> transform_points_batch sse_nan_rule example_store 0 9 19 5 (19 + 2 * 0)
       = (if f32_lt (f32_abs (f32_add sse_nan_rule (f32_add sse_nan_rule (f32_mul sse_nan_rule (Matrix3f_coeff example_store 0 2 0) (example_store (9 + 2 * 0)))
                                  (f32_mul sse_nan_rule (Matrix3f_coeff example_store 0 2 1) (example_store (9 + 2 * 0 + 1))))
                         (Matrix3f_coeff example_store 0 2 2)))
             MATRIX_SVD_EPSILON
          then quiet_NaN
          else f32_mul sse_nan_rule
                 (f32_add sse_nan_rule (f32_add sse_nan_rule (f32_mul sse_nan_rule (Matrix3f_coeff example_store 0 0 0) (example_store (9 + 2 * 0)))
                                  (f32_mul sse_nan_rule (Matrix3f_coeff example_store 0 0 1) (example_store (9 + 2 * 0 + 1))))
                         (Matrix3f_coeff example_store 0 0 2))
                 (f32_div sse_nan_rule f32_one
                    (f32_add sse_nan_rule (f32_add sse_nan_rule (f32_mul sse_nan_rule (Matrix3f_coeff example_store 0 2 0) (example_store (9 + 2 * 0)))
                                  (f32_mul sse_nan_rule (Matrix3f_coeff example_store 0 2 1) (example_store (9 + 2 * 0 + 1))))
                         (Matrix3f_coeff example_store 0 2 2))))"
proof -
  have h1: "buffers_disjoint 9 19 5" by (simp add: buffers_disjoint_def)
  have h2: "matrix_disjoint 0 19 5" by (simp add: matrix_disjoint_def)
  have h3: "(0::int) \<le> 0" and h4: "(0::int) < 5" by simp_all
  have w: "\<not> f32_is_nan (f32_add sse_nan_rule (f32_add sse_nan_rule (f32_mul sse_nan_rule (Matrix3f_coeff example_store 0 2 0) (example_store (9 + 2 * 0)))
                                  (f32_mul sse_nan_rule (Matrix3f_coeff example_store 0 2 1) (example_store (9 + 2 * 0 + 1))))
                         (Matrix3f_coeff example_store 0 2 2))"
    by code_simp
  from transform_points_batch_projection
         [where N = sse_nan_rule and mem = example_store, OF h1 h2 h3 h4 refl refl refl]
    w h1 h2
  show ?thesis by simp
qed

text \<open>
  The product with the reciprocal is not the quotient.  With the matrix
  \<open>diag(1, 1, 3)\<close> and the point \<open>(5, 0)\<close>, \<open>X = 5\<close> and \<open>W = 3\<close>; the output
  is \<open>5 * (1 / 3) = 0x3FD55556\<close>, and the float quotient \<open>5 / 3\<close> is
  \<open>0x3FD55555\<close>.
\<close>

theorem transform_points_batch_not_quotient:
  "transform_points_batch sse_nan_rule example_store 0 9 11 1 11 = 0x3FD55556
   \<and> f32_div sse_nan_rule (f32_add sse_nan_rule (f32_add sse_nan_rule (f32_mul sse_nan_rule (Matrix3f_coeff example_store 0 0 0) (example_store 9))
                               (f32_mul sse_nan_rule (Matrix3f_coeff example_store 0 0 1) (example_store 10)))
                      (Matrix3f_coeff example_store 0 0 2))
              (f32_add sse_nan_rule (f32_add sse_nan_rule (f32_mul sse_nan_rule (Matrix3f_coeff example_store 0 2 0) (example_store 9))
                               (f32_mul sse_nan_rule (Matrix3f_coeff example_store 0 2 1) (example_store 10)))
                      (Matrix3f_coeff example_store 0 2 2))
       = 0x3FD55555
   \<and> \<not> f32_lt (f32_abs (f32_add sse_nan_rule (f32_add sse_nan_rule (f32_mul sse_nan_rule (Matrix3f_coeff example_store 0 2 0) (example_store 9))
                                        (f32_mul sse_nan_rule (Matrix3f_coeff example_store 0 2 1) (example_store 10)))
                               (Matrix3f_coeff example_store 0 2 2)))
         MATRIX_SVD_EPSILON"
proof (intro conjI)
  show "transform_points_batch sse_nan_rule example_store 0 9 11 1 11 = 0x3FD55556"
    by code_simp
  show "f32_div sse_nan_rule (f32_add sse_nan_rule (f32_add sse_nan_rule (f32_mul sse_nan_rule (Matrix3f_coeff example_store 0 0 0) (example_store 9))
                               (f32_mul sse_nan_rule (Matrix3f_coeff example_store 0 0 1) (example_store 10)))
                      (Matrix3f_coeff example_store 0 0 2))
              (f32_add sse_nan_rule (f32_add sse_nan_rule (f32_mul sse_nan_rule (Matrix3f_coeff example_store 0 2 0) (example_store 9))
                               (f32_mul sse_nan_rule (Matrix3f_coeff example_store 0 2 1) (example_store 10)))
                      (Matrix3f_coeff example_store 0 2 2))
       = 0x3FD55555"
    by code_simp
  show "\<not> f32_lt (f32_abs (f32_add sse_nan_rule (f32_add sse_nan_rule (f32_mul sse_nan_rule (Matrix3f_coeff example_store 0 2 0) (example_store 9))
                                        (f32_mul sse_nan_rule (Matrix3f_coeff example_store 0 2 1) (example_store 10)))
                               (Matrix3f_coeff example_store 0 2 2)))
         MATRIX_SVD_EPSILON"
    by code_simp
qed

text \<open>
  Claim C9.  With a count of zero or less the function returns the store as it was.
  For every count, each slot outside the first \<open>2 * num_points\<close> floats of the
  output buffer keeps its value; hence the input buffer is unchanged whenever the
  output buffer does not overlap it.
\<close>

theorem transform_points_batch_writes_only_output:
  "(num_points \<le> 0 \<longrightarrow>
      transform_points_batch N mem matrix_ptr points_in_ptr points_out_ptr num_points = mem)
   \<and> (\<forall>a. a < points_out_ptr \<or> points_out_ptr + 2 * num_points \<le> a \<longrightarrow>
          transform_points_batch N mem matrix_ptr points_in_ptr points_out_ptr num_points a = mem a)
   \<and> (buffers_disjoint points_in_ptr points_out_ptr num_points \<longrightarrow>
        (\<forall>j. 0 \<le> j \<and> j < 2 * num_points \<longrightarrow>
           transform_points_batch N mem matrix_ptr points_in_ptr points_out_ptr num_points
             (points_in_ptr + j) = mem (points_in_ptr + j)))"
proof (intro conjI impI allI)
  assume "num_points \<le> 0"
  then show "transform_points_batch N mem matrix_ptr points_in_ptr points_out_ptr num_points = mem"
    by (rule transform_points_batch_nonpositive)
next
  fix a
  assume "a < points_out_ptr \<or> points_out_ptr + 2 * num_points \<le> a"
  then show "transform_points_batch N mem matrix_ptr points_in_ptr points_out_ptr num_points a = mem a"
    by (rule transform_points_batch_frame)
next
  fix j
  assume d: "buffers_disjoint points_in_ptr points_out_ptr num_points"
    and j: "0 \<le> j \<and> j < 2 * num_points"
  then have "points_in_ptr + j < points_out_ptr
             \<or> points_out_ptr + 2 * num_points \<le> points_in_ptr + j"
    by (auto simp: buffers_disjoint_def)
  then show "transform_points_batch N mem matrix_ptr points_in_ptr points_out_ptr num_points
               (points_in_ptr + j) = mem (points_in_ptr + j)"
    by (rule transform_points_batch_frame)
qed

theorem transform_points_batch_writes_only_output_witness:
  "(0::int) \<le> 0 \<and> transform_points_batch sse_nan_rule example_store 0 9 19 0 = example_store
   \<and> ((29::int) < 19 \<or> (19::int) + 2 * 5 \<le> 29)
   \<and> transform_points_batch sse_nan_rule example_store 0 9 19 5 29 = example_store 29
   \<and> buffers_disjoint 9 19 5 \<and> (0::int) \<le> 0 \<and> (0::int) < 2 * 5
   \<and> transform_points_batch sse_nan_rule example_store 0 9 19 5 (9 + 0) = example_store (9 + 0)"
proof -
  have d: "buffers_disjoint 9 19 5" by (simp add: buffers_disjoint_def)
  note t0 = transform_points_batch_writes_only_output
              [where num_points = 0 and N = sse_nan_rule and mem = example_store
                 and matrix_ptr = 0 and points_in_ptr = 9 and points_out_ptr = 19]
  note t5 = transform_points_batch_writes_only_output
              [where num_points = 5 and N = sse_nan_rule and mem = example_store
                 and matrix_ptr = 0 and points_in_ptr = 9 and points_out_ptr = 19]
  from t0 have a: "transform_points_batch sse_nan_rule example_store 0 9 19 0 = example_store"
    by simp
  from t5 [THEN conjunct2, THEN conjunct1, THEN spec, of 29]
  have b: "transform_points_batch sse_nan_rule example_store 0 9 19 5 29 = example_store 29"
    by simp
  from t5 [THEN conjunct2, THEN conjunct2, THEN mp, OF d, THEN spec, of 0]
  have c: "transform_points_batch sse_nan_rule example_store 0 9 19 5 (9 + 0) = example_store (9 + 0)"
    by simp
  from a b c d show ?thesis by simp
qed

text \<open>
  Claim C10.  Under the contract, the output point \<open>i\<close> depends only on the matrix
  and on the input point \<open>i\<close>: two stores that hold the same matrix and the same
  input point \<open>i\<close> give the same output point \<open>i\<close>, whatever else they hold.
\<close>

theorem transform_points_batch_point_independent:
  "buffers_disjoint points_in_ptr points_out_ptr num_points
   \<Longrightarrow> matrix_disjoint matrix_ptr points_out_ptr num_points
   \<Longrightarrow> 0 \<le> i \<Longrightarrow> i < num_points
   \<Longrightarrow> \<forall>j. 0 \<le> j \<and> j < 9 \<longrightarrow> mem1 (matrix_ptr + j) = mem2 (matrix_ptr + j)
   \<Longrightarrow> mem1 (points_in_ptr + 2 * i) = mem2 (points_in_ptr + 2 * i)
   \<Longrightarrow> mem1 (points_in_ptr + 2 * i + 1) = mem2 (points_in_ptr + 2 * i + 1)
   \<Longrightarrow> transform_points_batch N mem1 matrix_ptr points_in_ptr points_out_ptr num_points
         (points_out_ptr + 2 * i)
       = transform_points_batch N mem2 matrix_ptr points_in_ptr points_out_ptr num_points
         (points_out_ptr + 2 * i)
     \<and> transform_points_batch N mem1 matrix_ptr points_in_ptr points_out_ptr num_points
         (points_out_ptr + 2 * i + 1)
       = transform_points_batch N mem2 matrix_ptr points_in_ptr points_out_ptr num_points
         (points_out_ptr + 2 * i + 1)"
proof -
  assume d: "buffers_disjoint points_in_ptr points_out_ptr num_points"
    and m: "matrix_disjoint matrix_ptr points_out_ptr num_points"
    and i: "0 \<le> i" "i < num_points"
    and c: "\<forall>j. 0 \<le> j \<and> j < 9 \<longrightarrow> mem1 (matrix_ptr + j) = mem2 (matrix_ptr + j)"
    and x: "mem1 (points_in_ptr + 2 * i) = mem2 (points_in_ptr + 2 * i)"
    and y: "mem1 (points_in_ptr + 2 * i + 1) = mem2 (points_in_ptr + 2 * i + 1)"
  from c [THEN spec, of 0] c [THEN spec, of 1] c [THEN spec, of 2] c [THEN spec, of 3]
    c [THEN spec, of 4] c [THEN spec, of 5] c [THEN spec, of 6] c [THEN spec, of 7]
    c [THEN spec, of 8]
  have "read_scalar_consts mem1 matrix_ptr = read_scalar_consts mem2 matrix_ptr"
    by (simp add: read_scalar_consts_def Matrix3f_coeff_def)
  with d m i x y show ?thesis
    by (simp add: transform_points_batch_x transform_points_batch_y)
qed

theorem transform_points_batch_point_independent_witness:
  "buffers_disjoint 9 19 5 \<and> matrix_disjoint 0 19 5 \<and> (0::int) \<le> 0 \<and> (0::int) < 5
   \<and> example_store (0 + 3) = example_store2 (0 + 3)
   \<and> example_store (9 + 2 * 0) = example_store2 (9 + 2 * 0)
   \<and> example_store (9 + 2 * 0 + 1) = example_store2 (9 + 2 * 0 + 1)
   \<and> example_store 13 \<noteq> example_store2 13
   \<and> transform_points_batch sse_nan_rule example_store 0 9 19 5 (19 + 2 * 0)
       = transform_points_batch sse_nan_rule example_store2 0 9 19 5 (19 + 2 * 0)"
proof -
  have h1: "buffers_disjoint 9 19 5" by (simp add: buffers_disjoint_def)
  have h2: "matrix_disjoint 0 19 5" by (simp add: matrix_disjoint_def)
  have h3: "(0::int) \<le> 0" and h4: "(0::int) < 5" by simp_all
  have h5: "\<forall>j. 0 \<le> j \<and> j < 9 \<longrightarrow> example_store (0 + j) = example_store2 (0 + j)"
    by (simp add: example_store2_def)
  have h6: "example_store (9 + 2 * 0) = example_store2 (9 + 2 * 0)"
    by (simp add: example_store2_def)
  have h7: "example_store (9 + 2 * 0 + 1) = example_store2 (9 + 2 * 0 + 1)"
    by (simp add: example_store2_def)
  have h8: "example_store 13 \<noteq> example_store2 13"
    by (simp add: example_store2_def example_store_def f32_one_def f32_zero_def)
  from transform_points_batch_point_independent [where N = sse_nan_rule, OF h1 h2 h3 h4 h5 h6 h7, THEN conjunct1]
    h1 h2 h5 [THEN spec, of 3] h6 h7 h8
  show ?thesis by simp
qed

section \<open>The identity matrix\<close>

lemma holds_identity_consts:
  "holds_identity mem ptr \<Longrightarrow> read_scalar_consts mem ptr = identity_consts"
  by (simp add: holds_identity_def read_scalar_consts_def identity_consts_def)

lemma f32_is_zero_make_zero: "f32_is_zero (f32_make s 0)"
  by (simp add: f32_is_zero_def f32_mag_make_zero)

lemma f32_is_finite_make_zero: "f32_is_finite (f32_make s 0)"
  by (simp add: f32_is_finite_def f32_mag_make_zero INF_MAG_def)

lemma f32_is_zero_zero: "f32_is_zero f32_zero"
  by (simp add: f32_is_zero_def f32_zero_mag)

lemma f32_is_finite_one: "f32_is_finite f32_one"
  by (simp add: f32_is_finite_def f32_one_mag INF_MAG_def)

lemma f32_one_not_zero: "\<not> f32_is_zero f32_one"
  by (simp add: f32_is_zero_def f32_one_mag)

lemma identity_row:
  assumes x: "f32_is_finite x" and y: "f32_is_finite y"
  shows "f32_add N (f32_add N (f32_mul N f32_one x) (f32_mul N f32_zero y)) f32_zero
           = (if f32_is_zero x then f32_zero else x)"
proof -
  have a: "f32_add N (f32_mul N f32_one x) (f32_mul N f32_zero y)
             = (if f32_is_zero x then f32_make (f32_sign x \<and> f32_sign (f32_make (f32_sign y) 0)) 0 else x)"
    using x y by (simp add: f32_mul_one_left f32_mul_zero_left f32_add_zero_right
                    f32_is_zero_make_zero)
  show ?thesis
  proof (cases "f32_is_zero x")
    case True
    then show ?thesis
      unfolding a
      by (simp add: f32_add_zero_right f32_is_finite_make_zero f32_is_zero_zero
            f32_is_zero_make_zero f32_zero_sign f32_make_zero)
  next
    case False
    with x show ?thesis
      unfolding a by (simp add: f32_add_zero_right f32_is_zero_zero)
  qed
qed

lemma identity_row2:
  assumes x: "f32_is_finite x" and y: "f32_is_finite y"
  shows "f32_add N (f32_add N (f32_mul N f32_zero x) (f32_mul N f32_one y)) f32_zero
           = (if f32_is_zero y then f32_zero else y)"
proof -
  have a: "f32_add N (f32_mul N f32_zero x) (f32_mul N f32_one y)
             = (if f32_is_zero y then f32_make (f32_sign (f32_make (f32_sign x) 0) \<and> f32_sign y) 0 else y)"
    using x y by (simp add: f32_mul_one_left f32_mul_zero_left f32_add_zero_left
                    f32_is_zero_make_zero)
  show ?thesis
  proof (cases "f32_is_zero y")
    case True
    then show ?thesis
      unfolding a
      by (simp add: f32_add_zero_right f32_is_finite_make_zero f32_is_zero_zero
            f32_is_zero_make_zero f32_zero_sign f32_make_zero)
  next
    case False
    with y show ?thesis
      unfolding a by (simp add: f32_add_zero_right f32_is_zero_zero)
  qed
qed

lemma identity_row3:
  assumes x: "f32_is_finite x" and y: "f32_is_finite y"
  shows "f32_add N (f32_add N (f32_mul N f32_zero x) (f32_mul N f32_zero y)) f32_one = f32_one"
proof -
  have "f32_is_zero (f32_add N (f32_mul N f32_zero x) (f32_mul N f32_zero y))"
    using x y by (simp add: f32_mul_zero_left f32_add_zero_right f32_is_finite_make_zero
                    f32_is_zero_make_zero)
  then show ?thesis
    by (simp add: f32_add_zero_left f32_is_finite_one f32_one_not_zero)
qed

lemma f32_is_finite_zero: "f32_is_finite f32_zero"
  by (simp add: f32_is_finite_def f32_zero_mag INF_MAG_def)

lemma point_result_identity:
  assumes x: "f32_is_finite x" and y: "f32_is_finite y"
  shows "point_result N identity_consts x y
           = (if f32_is_zero x then f32_zero else x, if f32_is_zero y then f32_zero else y)"
  using x y
  by (simp add: point_result_def identity_consts_def Let_def identity_row identity_row2
        identity_row3 one_not_below_eps f32_div_one_one f32_mul_one_right f32_is_finite_zero)

lemma one_at_least_eps: "f32_ge (f32_abs f32_one) MATRIX_SVD_EPSILON"
  by code_simp

lemma point_result_v_identity:
  assumes x: "f32_is_finite x" and y: "f32_is_finite y"
  shows "point_result_v N identity_consts x y
           = (if f32_is_zero x then f32_zero else x, if f32_is_zero y then f32_zero else y)"
  using x y
  by (simp add: point_result_v_def identity_consts_def Let_def identity_row identity_row2
        identity_row3 one_at_least_eps f32_div_one_one f32_mul_one_right f32_is_finite_zero)

lemma f32_eq_zero_or_self:
  "f32_is_finite x \<Longrightarrow> f32_eq (if f32_is_zero x then f32_zero else x) x"
  by (auto simp: f32_eq_def f32_is_finite_def f32_is_nan_def f32_is_zero_def f32_zero_mag
        f32_units_zero INF_MAG_def)

text \<open>
  Claim C7, amended.  With the identity matrix, under the contract of the call and for
  every count, a point of the batch whose two coordinates are finite comes out equal
  to the input as a float in both coordinates: bit for bit, except that an input
  \<open>-0\<close> comes out as \<open>+0\<close>.
\<close>

theorem transform_points_batch_identity:
  "buffers_disjoint points_in_ptr points_out_ptr num_points
   \<Longrightarrow> matrix_disjoint matrix_ptr points_out_ptr num_points
   \<Longrightarrow> holds_identity mem matrix_ptr
   \<Longrightarrow> 0 \<le> i \<Longrightarrow> i < num_points
   \<Longrightarrow> f32_is_finite (mem (points_in_ptr + 2 * i))
   \<Longrightarrow> f32_is_finite (mem (points_in_ptr + 2 * i + 1))
   \<Longrightarrow> f32_eq (transform_points_batch N mem matrix_ptr points_in_ptr points_out_ptr num_points
               (points_out_ptr + 2 * i))
            (mem (points_in_ptr + 2 * i))
     \<and> f32_eq (transform_points_batch N mem matrix_ptr points_in_ptr points_out_ptr num_points
               (points_out_ptr + 2 * i + 1))
            (mem (points_in_ptr + 2 * i + 1))
     \<and> transform_points_batch N mem matrix_ptr points_in_ptr points_out_ptr num_points
           (points_out_ptr + 2 * i)
         = (if f32_is_zero (mem (points_in_ptr + 2 * i)) then f32_zero
            else mem (points_in_ptr + 2 * i))
     \<and> transform_points_batch N mem matrix_ptr points_in_ptr points_out_ptr num_points
           (points_out_ptr + 2 * i + 1)
         = (if f32_is_zero (mem (points_in_ptr + 2 * i + 1)) then f32_zero
            else mem (points_in_ptr + 2 * i + 1))"
proof -
  assume d: "buffers_disjoint points_in_ptr points_out_ptr num_points"
    and m: "matrix_disjoint matrix_ptr points_out_ptr num_points"
    and h: "holds_identity mem matrix_ptr"
    and i: "0 \<le> i" "i < num_points"
    and x: "f32_is_finite (mem (points_in_ptr + 2 * i))"
    and y: "f32_is_finite (mem (points_in_ptr + 2 * i + 1))"
  let ?out = "transform_points_batch N mem matrix_ptr points_in_ptr points_out_ptr num_points"
  from h have s: "read_scalar_consts mem matrix_ptr = identity_consts"
    by (rule holds_identity_consts)
  note pv = point_result_v_identity [OF x y, of N]
  note ps = point_result_identity [OF x y, of N]
  from d m i have ox: "?out (points_out_ptr + 2 * i)
      = (if f32_is_zero (mem (points_in_ptr + 2 * i)) then f32_zero
         else mem (points_in_ptr + 2 * i))"
    by (simp add: transform_points_batch_x s pv ps)
  from d m i have oy: "?out (points_out_ptr + 2 * i + 1)
      = (if f32_is_zero (mem (points_in_ptr + 2 * i + 1)) then f32_zero
         else mem (points_in_ptr + 2 * i + 1))"
    by (simp add: transform_points_batch_y s pv ps)
  from x have ex: "f32_eq (?out (points_out_ptr + 2 * i)) (mem (points_in_ptr + 2 * i))"
    unfolding ox by (rule f32_eq_zero_or_self)
  from y have ey: "f32_eq (?out (points_out_ptr + 2 * i + 1)) (mem (points_in_ptr + 2 * i + 1))"
    unfolding oy by (rule f32_eq_zero_or_self)
  from ex ey ox oy show ?thesis by simp
qed

theorem transform_points_batch_identity_witness:
  "buffers_disjoint 9 19 5 \<and> matrix_disjoint 0 19 5 \<and> holds_identity identity_store 0
   \<and> (0::int) \<le> 0 \<and> (0::int) < 5
   \<and> f32_is_finite (identity_store (9 + 2 * 0))
   \<and> f32_is_finite (identity_store (9 + 2 * 0 + 1))
   \<and> f32_eq (transform_points_batch sse_nan_rule identity_store 0 9 19 5 (19 + 2 * 0))
            (identity_store (9 + 2 * 0))
   \<and> f32_eq (transform_points_batch sse_nan_rule identity_store 0 9 19 5 (19 + 2 * 0 + 1))
            (identity_store (9 + 2 * 0 + 1))
   \<and> transform_points_batch sse_nan_rule identity_store 0 9 19 5 (19 + 2 * 0) = 0x40A00000
   \<and> transform_points_batch sse_nan_rule identity_store 0 9 19 5 (19 + 2 * 0 + 1) = f32_zero"
proof -
  have h1: "buffers_disjoint 9 19 5" by (simp add: buffers_disjoint_def)
  have h2: "matrix_disjoint 0 19 5" by (simp add: matrix_disjoint_def)
  have h3: "holds_identity identity_store 0" by code_simp
  have h4: "(0::int) \<le> 0" and h5: "(0::int) < 5" by simp_all
  have h6: "f32_is_finite (identity_store (9 + 2 * 0))" by code_simp
  have h7: "f32_is_finite (identity_store (9 + 2 * 0 + 1))" by code_simp
  have z1: "\<not> f32_is_zero (identity_store (9 + 2 * 0))" by code_simp
  have z2: "f32_is_zero (identity_store (9 + 2 * 0 + 1))" by code_simp
  have v: "identity_store (9 + 2 * 0) = 0x40A00000" by (simp add: identity_store_def)
  note t = transform_points_batch_identity [where N = sse_nan_rule, OF h1 h2 h3 h4 h5 h6 h7]
  from t [THEN conjunct2, THEN conjunct2, THEN conjunct1] z1 v
  have a: "transform_points_batch sse_nan_rule identity_store 0 9 19 5 (19 + 2 * 0) = 0x40A00000"
    by simp
  from t [THEN conjunct2, THEN conjunct2, THEN conjunct2] z2
  have b: "transform_points_batch sse_nan_rule identity_store 0 9 19 5 (19 + 2 * 0 + 1) = f32_zero"
    by simp
  from h1 h2 h3 h6 h7 t [THEN conjunct1] t [THEN conjunct2, THEN conjunct1] a b
  show ?thesis by simp
qed

text \<open>
  The claim as stated, for every batch, fails at a point with an infinite coordinate.
  With the identity matrix and the one point \<open>(+Inf, 0)\<close>, \<open>W = 0 * Inf + 0 * 0 + 1\<close>
  is a NaN, and both output coordinates are NaN (\<open>0xFFC00000\<close> under the SSE rule).
\<close>

theorem transform_points_batch_infinite_point_lost:
  "holds_identity identity_inf_store 0
   \<and> buffers_disjoint 9 11 1 \<and> matrix_disjoint 0 11 1
   \<and> identity_inf_store 9 = f32_inf \<and> identity_inf_store 10 = f32_zero
   \<and> transform_points_batch sse_nan_rule identity_inf_store 0 9 11 1 11 = 0xFFC00000
   \<and> transform_points_batch sse_nan_rule identity_inf_store 0 9 11 1 12 = 0xFFC00000
   \<and> f32_is_nan (transform_points_batch sse_nan_rule identity_inf_store 0 9 11 1 11)
   \<and> f32_is_nan (transform_points_batch sse_nan_rule identity_inf_store 0 9 11 1 12)
   \<and> \<not> f32_eq (transform_points_batch sse_nan_rule identity_inf_store 0 9 11 1 11)
              (identity_inf_store 9)
   \<and> \<not> f32_eq (transform_points_batch sse_nan_rule identity_inf_store 0 9 11 1 12)
              (identity_inf_store 10)"
proof -
  have n: "f32_is_nan (0xFFC00000 :: f32)"
    by (simp add: f32_is_nan_def f32_mag_def INF_MAG_def)
  have a: "transform_points_batch sse_nan_rule identity_inf_store 0 9 11 1 11 = 0xFFC00000"
    by code_simp
  have b: "transform_points_batch sse_nan_rule identity_inf_store 0 9 11 1 12 = 0xFFC00000"
    by code_simp
  have "holds_identity identity_inf_store 0" by code_simp
  moreover have "buffers_disjoint 9 11 1" by (simp add: buffers_disjoint_def)
  moreover have "matrix_disjoint 0 11 1" by (simp add: matrix_disjoint_def)
  moreover have "identity_inf_store 9 = f32_inf" by (simp add: identity_inf_store_def)
  moreover have "identity_inf_store 10 = f32_zero"
    by (simp add: identity_inf_store_def identity_matrix_store_def)
  ultimately show ?thesis
    unfolding a b using n by (simp add: f32_eq_def)
qed

section \<open>Determinant: where a NaN can come from\<close>

lemma f32_finite_iff: "f32_is_finite x \<longleftrightarrow> \<not> f32_is_nan x \<and> \<not> f32_is_inf x"
  by (auto simp: f32_is_finite_def f32_is_nan_def f32_is_inf_def)

lemma f32_is_finite_neg: "f32_is_finite (f32_neg x) = f32_is_finite x"
  by (simp add: f32_is_finite_def f32_mag_neg)

lemma f32_is_nan_make_zero: "\<not> f32_is_nan (f32_make s 0)"
  by (simp add: f32_is_nan_def f32_mag_make_zero INF_MAG_def)

lemma f32_mul_finite_not_nan:
  "f32_is_finite a \<Longrightarrow> f32_is_finite b \<Longrightarrow> \<not> f32_is_nan (f32_mul N a b)"
  by (simp add: f32_finite_iff f32_mul_def f32_is_nan_round)

lemma f32_add_finite_not_nan:
  "f32_is_finite a \<Longrightarrow> f32_is_finite b \<Longrightarrow> \<not> f32_is_nan (f32_add N a b)"
  by (simp add: f32_finite_iff f32_add_def f32_is_nan_round f32_is_nan_make_zero Let_def)

lemma f32_sub_finite_not_nan:
  "f32_is_finite a \<Longrightarrow> f32_is_finite b \<Longrightarrow> \<not> f32_is_nan (f32_sub N a b)"
proof -
  assume a: "f32_is_finite a" and b: "f32_is_finite b"
  then have "f32_sub N a b = f32_add N a (f32_neg b)"
    by (simp add: f32_sub_def f32_finite_iff)
  with a b show ?thesis
    by (simp add: f32_add_finite_not_nan f32_is_finite_neg)
qed

text \<open>
  Claim C8, amended.  \<open>determinant\<close> is a total function of the nine floats.  When
  every entry is finite and none of the intermediate products and differences of the
  expansion is infinite, the result is not a NaN: a NaN in the result needs a NaN or
  an infinity in the input, or the overflow of an intermediate result.
\<close>

theorem determinant_nan_needs_nonfinite:
  assumes e: "list_all f32_is_finite (map (load_coeffs mem m_ptr) [0..<9])"
    and i: "list_all (\<lambda>v. \<not> f32_is_inf v) (det3_intermediates N mem m_ptr)"
  shows "\<not> f32_is_nan (determinant N mem m_ptr)"
proof -
  have c: "f32_is_finite (Matrix3f_coeff mem m_ptr r c)"
    if "r \<in> {0, 1, 2}" "c \<in> {0, 1, 2}" for r c
    using e that by (auto simp: Matrix3f_coeff_def load_coeffs_def upt_conv_Cons)
  have p: "f32_is_finite (f32_mul N (Matrix3f_coeff mem m_ptr 1 b) (Matrix3f_coeff mem m_ptr 2 c))"
    if "list_ex (\<lambda>v. v = f32_mul N (Matrix3f_coeff mem m_ptr 1 b) (Matrix3f_coeff mem m_ptr 2 c))
          (det3_intermediates N mem m_ptr)" "b \<in> {0, 1, 2}" "c \<in> {0, 1, 2}" for b c
  proof -
    from that(1) i have "\<not> f32_is_inf (f32_mul N (Matrix3f_coeff mem m_ptr 1 b) (Matrix3f_coeff mem m_ptr 2 c))"
      by (auto simp: list_all_iff list_ex_iff)
    moreover have "\<not> f32_is_nan (f32_mul N (Matrix3f_coeff mem m_ptr 1 b) (Matrix3f_coeff mem m_ptr 2 c))"
      using that by (intro f32_mul_finite_not_nan c) auto
    ultimately show ?thesis by (simp add: f32_finite_iff)
  qed
  have m: "f32_is_finite (det3_minor N mem m_ptr b c)"
    if "(b, c) \<in> {(1, 2), (0, 2), (0, 1)}" for b c
  proof -
    from that i have "\<not> f32_is_inf (det3_minor N mem m_ptr b c)"
      by (auto simp: det3_intermediates_def)
    moreover have "\<not> f32_is_nan (det3_minor N mem m_ptr b c)"
      unfolding det3_minor_def using that
      by (intro f32_sub_finite_not_nan p) (auto simp: det3_intermediates_def)
    ultimately show ?thesis by (simp add: f32_finite_iff)
  qed
  have h: "f32_is_finite (bruteforce_det3_helper N mem m_ptr a b c)"
    if "(a, b, c) \<in> {(0, 1, 2), (1, 0, 2), (2, 0, 1)}" for a b c
  proof -
    from that i have "\<not> f32_is_inf (bruteforce_det3_helper N mem m_ptr a b c)"
      by (auto simp: det3_intermediates_def)
    moreover have "bruteforce_det3_helper N mem m_ptr a b c
        = f32_mul N (Matrix3f_coeff mem m_ptr 0 a) (det3_minor N mem m_ptr b c)"
      by (simp add: bruteforce_det3_helper_def det3_minor_def)
    moreover have "\<not> f32_is_nan (f32_mul N (Matrix3f_coeff mem m_ptr 0 a) (det3_minor N mem m_ptr b c))"
      using that by (intro f32_mul_finite_not_nan c m) auto
    ultimately show ?thesis by (simp add: f32_finite_iff)
  qed
  have "\<not> f32_is_inf (f32_sub N (bruteforce_det3_helper N mem m_ptr 0 1 2)
                          (bruteforce_det3_helper N mem m_ptr 1 0 2))"
    using i by (simp add: det3_intermediates_def)
  moreover have "\<not> f32_is_nan (f32_sub N (bruteforce_det3_helper N mem m_ptr 0 1 2)
                          (bruteforce_det3_helper N mem m_ptr 1 0 2))"
    by (intro f32_sub_finite_not_nan h) simp_all
  ultimately have "f32_is_finite (f32_sub N (bruteforce_det3_helper N mem m_ptr 0 1 2)
                          (bruteforce_det3_helper N mem m_ptr 1 0 2))"
    by (simp add: f32_finite_iff)
  then show ?thesis
    unfolding determinant_def by (intro f32_add_finite_not_nan h) simp_all
qed

theorem determinant_nan_needs_nonfinite_witness:
  "list_all f32_is_finite (map (load_coeffs example_store 0) [0..<9])
   \<and> list_all (\<lambda>v. \<not> f32_is_inf v) (det3_intermediates sse_nan_rule example_store 0)
   \<and> \<not> f32_is_nan (determinant sse_nan_rule example_store 0)"
proof -
  have h1: "list_all f32_is_finite (map (load_coeffs example_store 0) [0..<9])"
    by code_simp
  have h2: "list_all (\<lambda>v. \<not> f32_is_inf v) (det3_intermediates sse_nan_rule example_store 0)"
    by code_simp
  from determinant_nan_needs_nonfinite [OF h1 h2] h1 h2 show ?thesis by simp
qed

text \<open>
  The claim as stated fails by overflow.  When every entry is \<open>2^100\<close>, no entry is a
  NaN or an infinity, each product of two entries overflows to \<open>+Inf\<close>, and
  \<open>Inf - Inf\<close> makes the determinant a NaN.
\<close>

theorem determinant_nan_from_finite_input:
  "list_all f32_is_finite (map (load_coeffs overflow_store 0) [0..<9])
   \<and> \<not> any_coeff 9 f32_is_nan (load_coeffs overflow_store 0)
   \<and> f32_is_nan (determinant sse_nan_rule overflow_store 0)"
proof (intro conjI)
  show "list_all f32_is_finite (map (load_coeffs overflow_store 0) [0..<9])" by code_simp
  show "\<not> any_coeff 9 f32_is_nan (load_coeffs overflow_store 0)" by code_simp
  show "f32_is_nan (determinant sse_nan_rule overflow_store 0)" by code_simp
qed

end
